theory Spec2Isabelle
  imports Complex_Main "HOL-Library.Sublist"
begin

section \<open>Strings\<close>

text \<open>
  A JavaScript string is modelled as a \<^typ>\<open>string\<close>: a list of code units, here the
  256 code units of Latin-1. \<open>s.replace(/<suf>$/, rep)\<close> with a literal pattern anchored
  by \<open>$\<close> (no \<open>m\<close> flag) rewrites the pattern only where it ends the whole string, and
  leaves the string alone otherwise.
\<close>

definition replace_suffix :: "string \<Rightarrow> string \<Rightarrow> string \<Rightarrow> string" where
  "replace_suffix suf rep s =
     (if suffix suf s then take (length s - length suf) s @ rep else s)"

text \<open>\<open>String.prototype.trim\<close>: the white space and line terminators among the code units
  below 256 are TAB, LF, VT, FF, CR, SPACE and NBSP.\<close>

definition is_space :: "char \<Rightarrow> bool" where
  "is_space c \<longleftrightarrow> of_char c \<in> {9, 10, 11, 12, 13, 32, 160 :: nat}"

definition trim :: "string \<Rightarrow> string" where
  "trim s = rev (dropWhile is_space (rev (dropWhile is_space s)))"

text \<open>A value read from a JSON object is truthy when it is present and not the empty string.\<close>

definition truthy :: "string option \<Rightarrow> bool" where
  "truthy v = (case v of None \<Rightarrow> False | Some s \<Rightarrow> s \<noteq> [])"

section \<open>lib/documents.ts\<close>

record PDFDocument =
  id' :: string
  title :: string
  content :: string
  timestamp :: nat

definition DOCUMENTS_STORAGE_KEY :: string where
  "DOCUMENTS_STORAGE_KEY = ''user_documents''"

text \<open>
  AsyncStorage: a key-value store of JSON texts. The only values this module writes are
  \<open>JSON.stringify\<close> of a list of documents, which \<open>JSON.parse\<close> reads back unchanged, so
  a slot holds the list itself. Every operation rejects when the store is not
  \<open>available\<close>.
\<close>

record AsyncStorage =
  slots :: "string \<rightharpoonup> PDFDocument list"
  available :: bool

text \<open>
  The remote side as \<open>fetchStoredDocuments\<close> sees it: the platform, \<open>listAll\<close> on a
  prefix (the names of the items, \<open>None\<close> when the call rejects), the body found at a
  storage path (\<open>None\<close> when \<open>getDownloadURL\<close>, \<open>fetch\<close> or \<open>response.text()\<close> rejects or
  the response is not ok), whether the 30 second timer wins the race for an item, and
  the clock read when the record of an item is built.
\<close>

record remote =
  platform_web :: bool
  listAll :: "string \<Rightarrow> string list option"
  download :: "string \<Rightarrow> string option"
  timed_out :: "string \<Rightarrow> bool"
  now :: "string \<Rightarrow> nat"

definition clearDocumentCache :: "AsyncStorage \<Rightarrow> AsyncStorage" where
  "clearDocumentCache st =
     (if available st then st\<lparr>slots := (slots st)(DOCUMENTS_STORAGE_KEY := None)\<rparr>
      else st)"

definition loadDocuments :: "AsyncStorage \<Rightarrow> PDFDocument list" where
  "loadDocuments st =
     (if available st then
        (case slots st DOCUMENTS_STORAGE_KEY of Some docs \<Rightarrow> docs | None \<Rightarrow> [])
      else [])"

text \<open>\<open>saveDocument\<close> returns \<open>False\<close> where the source rethrows the storage error.\<close>

definition saveDocument :: "string \<Rightarrow> PDFDocument \<Rightarrow> AsyncStorage \<Rightarrow> bool \<times> AsyncStorage" where
  "saveDocument userId document st =
     (let existingDocs = loadDocuments st;
          updatedDocs = document # existingDocs
      in if available st
         then (True, st\<lparr>slots := (slots st)(DOCUMENTS_STORAGE_KEY \<mapsto> updatedDocs)\<rparr>)
         else (False, st))"

text \<open>
  The expression bound to \<open>title\<close> (web) and to \<open>baseName\<close> (native) in
  \<open>fetchDocument\<close>:
  \<open>item.name.replace(/\.mmd$/, '').replace(/\.pdf\.mmd$/, '.pdf').replace(/\.pdf$/, '')\<close>.
\<close>

definition deriveTitle :: "string \<Rightarrow> string" where
  "deriveTitle name =
     replace_suffix ''.pdf'' ''''
       (replace_suffix ''.pdf.mmd'' ''.pdf''
         (replace_suffix ''.mmd'' '''' name))"

text \<open>The \<open>for (const path of paths)\<close> loop of the native branch.\<close>

fun try_paths :: "remote \<Rightarrow> string \<Rightarrow> string \<Rightarrow> string list \<Rightarrow> PDFDocument option" where
  "try_paths r name baseName [] = None"
| "try_paths r name baseName (path # paths) =
     (case download r path of
        None \<Rightarrow> try_paths r name baseName paths
      | Some c \<Rightarrow>
          if c = [] then try_paths r name baseName paths
          else Some \<lparr>id' = name, title = baseName, content = c, timestamp = now r name\<rparr>)"

definition fetchDocument :: "remote \<Rightarrow> string \<Rightarrow> string \<Rightarrow> PDFDocument option" where
  "fetchDocument r name userId =
     (if platform_web r then
        (case download r (''users/'' @ userId @ ''/mmd/'' @ name) of
           None \<Rightarrow> None
         | Some c \<Rightarrow>
             if c = [] then None
             else Some \<lparr>id' = name, title = deriveTitle name, content = c,
                        timestamp = now r name\<rparr>)
      else
        (let baseName = deriveTitle name;
             paths = [''users/'' @ userId @ ''/mmd/'' @ name,
                      ''users/'' @ userId @ ''/mmd/'' @ baseName @ ''.mmd'',
                      ''users/'' @ userId @ ''/mmd/'' @ baseName @ ''.pdf.mmd'']
         in try_paths r name baseName paths))"

definition fetchWithTimeout :: "remote \<Rightarrow> string \<Rightarrow> string \<Rightarrow> PDFDocument option" where
  "fetchWithTimeout r userId name =
     (if timed_out r name then None else fetchDocument r name userId)"

definition fetchStoredDocuments ::
  "remote \<Rightarrow> string \<Rightarrow> bool \<Rightarrow> AsyncStorage \<Rightarrow> PDFDocument list \<times> AsyncStorage" where
  "fetchStoredDocuments r userId forceRefresh st =
     (let localDocs = (if \<not> forceRefresh then loadDocuments st else [])
      in if \<not> forceRefresh \<and> localDocs \<noteq> [] then (localDocs, st)
         else
           (case listAll r (''users/'' @ userId @ ''/mmd'') of
              None \<Rightarrow> ([], clearDocumentCache st)
            | Some items \<Rightarrow>
                if items = [] then ([], clearDocumentCache st)
                else
                  (let fetchedDocs = List.map_filter (fetchWithTimeout r userId) items
                   in if fetchedDocs \<noteq> [] then
                        (if available st
                         then (fetchedDocs,
                               st\<lparr>slots := (slots st)(DOCUMENTS_STORAGE_KEY \<mapsto> fetchedDocs)\<rparr>)
                         else ([], clearDocumentCache st))
                      else ([], clearDocumentCache st))))"

section \<open>lib/exercises.ts: the Mathpix client (imported as lib/mathpix)\<close>

datatype MathpixErrorCode =
    INVALID_CREDENTIALS | RATE_LIMIT_EXCEEDED | FILE_TOO_LARGE | UNSUPPORTED_FORMAT
  | PROCESSING_ERROR | EMPTY_RESPONSE | NETWORK_ERROR | TIMEOUT
  | LOW_CONFIDENCE | NO_MATH_DETECTED | INVALID_CONTENT

text \<open>What a \<open>throw\<close> carries: a \<open>MathpixError\<close> with its code, or any other exception
  (the \<open>TypeError\<close> of a rejected \<open>fetch\<close> or of a property read on \<open>undefined\<close>, the
  \<open>SyntaxError\<close> of \<open>response.json()\<close>, a storage error).\<close>

datatype thrown = MathpixError MathpixErrorCode | OtherError

text \<open>
  A Number of the language: a binary64 value, given by the rational it is exactly, or
  one of the three special values. A negative zero is \<open>Finite 0\<close>: no comparison tells
  it from zero.
\<close>

datatype number = NaN | MinusInfinity | Finite rat | PlusInfinity

text \<open>\<open>x < y\<close> on Numbers: false as soon as one side is \<open>NaN\<close>.\<close>

fun less_number :: "number \<Rightarrow> number \<Rightarrow> bool" where
  "less_number NaN y = False"
| "less_number x NaN = False"
| "less_number (Finite a) (Finite b) = (a < b)"
| "less_number x MinusInfinity = False"
| "less_number MinusInfinity y = True"
| "less_number PlusInfinity y = False"
| "less_number (Finite a) PlusInfinity = True"

text \<open>
  The Number a decimal denotes, in a numeric literal of the source and in a number of
  a JSON text alike: the binary64 value nearest to it, the one with the even
  significand when two are equally near, an infinity beyond the largest finite value.
  \<open>bit_length n\<close> is the number of binary digits of \<open>n\<close>, \<open>exponent_of q\<close> the \<open>e\<close> with
  \<open>2 ^ e \<le> q < 2 ^ (e + 1)\<close> for a positive \<open>q\<close>; a significand has 53 digits, and below
  \<open>2 ^ - 1022\<close> the values are spaced by \<open>2 ^ - 1074\<close>. (The language lets an
  implementation alter the digits of a decimal after its twentieth significant one;
  that latitude is left out.)
\<close>

definition pow2 :: "int \<Rightarrow> rat" where
  "pow2 e = (if 0 \<le> e then 2 ^ nat e else 1 / 2 ^ nat (- e))"

function bit_length :: "int \<Rightarrow> int" where
  "bit_length n = (if n \<le> 0 then 0 else bit_length (n div 2) + 1)"
  by pat_completeness auto
termination
  by (relation "measure nat") auto

definition round_half_even :: "rat \<Rightarrow> int" where
  "round_half_even x =
     (let f = \<lfloor>x\<rfloor>; d = x - of_int f
      in if d < 1 / 2 then f else if 1 / 2 < d then f + 1 else if even f then f else f + 1)"

definition exponent_of :: "rat \<Rightarrow> int" where
  "exponent_of q =
     (case quotient_of q of (a, b) \<Rightarrow>
        (let k = bit_length a - bit_length b
         in if pow2 k \<le> q then k else k - 1))"

definition binary64_pos :: "rat \<Rightarrow> number" where
  "binary64_pos q =
     (let e = max (exponent_of q) (- 1022);
          m = round_half_even (q / pow2 (e - 52))
      in if 1023 < e \<or> (e = 1023 \<and> m = 2 ^ 53) then PlusInfinity
         else Finite (of_int m * pow2 (e - 52)))"

definition binary64 :: "rat \<Rightarrow> number" where
  "binary64 q =
     (if q = 0 then Finite 0
      else if 0 < q then binary64_pos q
      else (case binary64_pos (- q) of Finite v \<Rightarrow> Finite (- v) | _ \<Rightarrow> MinusInfinity))"

text \<open>
  What \<open>result.confidence\<close> can be after \<open>response.json()\<close>, for a field declared a
  number: missing, \<open>null\<close>, or a number, given by the rational its JSON text denotes.
  \<open>ToNumber\<close> is the conversion the comparison \<open><\<close> applies to it.
\<close>

datatype json_value = Undefined | Null | JNumber rat

fun ToNumber :: "json_value \<Rightarrow> number" where
  "ToNumber Undefined = NaN"
| "ToNumber Null = Finite 0"
| "ToNumber (JNumber q) = binary64 q"

text \<open>The constant is the Number the literal \<open>0.7\<close> denotes.\<close>

definition CONFIDENCE_THRESHOLD :: number where
  "CONFIDENCE_THRESHOLD = binary64 (7 / 10)"

definition MAX_RETRIES :: nat where
  "MAX_RETRIES = 3"

definition RETRY_DELAY :: nat where
  "RETRY_DELAY = 2000"

text \<open>
  The fields this module reads from a parsed JSON body or returns to its caller
  (\<open>MathpixResponse\<close>, \<open>MathpixTextResponse\<close> and the status object of a job); a field is
  \<open>None\<close> when the object does not have it.
\<close>

record json_object =
  text' :: "string option"
  mmd :: "string option"
  error :: "string option"
  pdf_id :: "string option"
  job_status :: "string option"
  latex_styled :: "string option"
  confidence :: json_value

definition empty_object :: json_object where
  "empty_object = \<lparr>text' = None, mmd = None, error = None, pdf_id = None,
                    job_status = None, latex_styled = None, confidence = Undefined\<rparr>"

text \<open>A response: its status, its body as text, and its body parsed as JSON (\<open>None\<close> when
  \<open>response.json()\<close> rejects).\<close>

record response =
  status :: nat
  body_text :: string
  body_json :: "json_object option"

definition ok :: "response \<Rightarrow> bool" where
  "ok resp \<longleftrightarrow> 200 \<le> status resp \<and> status resp \<le> 299"

text \<open>
  The world of one call of \<open>processWithMathpix\<close>: whether both credentials are configured,
  the outcomes of the \<open>fetch\<close> calls still to come, in order (\<open>None\<close> is a rejected
  \<open>fetch\<close>; once the list is used up every \<open>fetch\<close> rejects), whether \<open>uploadBytes\<close>
  succeeds, and the objects uploaded to storage so far, newest first.
\<close>

record world =
  credentials :: bool
  responses :: "response option list"
  upload_ok :: bool
  uploaded :: "(string \<times> string) list"

definition fetch :: "world \<Rightarrow> response option \<times> world" where
  "fetch w = (case responses w of
                [] \<Rightarrow> (None, w)
              | r # rs \<Rightarrow> (r, w\<lparr>responses := rs\<rparr>))"

text \<open>\<open>handleMathpixResponse\<close> always throws; this is what it throws.\<close>

definition handleMathpixResponse :: "response \<Rightarrow> thrown" where
  "handleMathpixResponse resp =
     (if status resp = 400 then MathpixError INVALID_CONTENT
      else if status resp = 401 then MathpixError INVALID_CREDENTIALS
      else if status resp = 429 then MathpixError RATE_LIMIT_EXCEEDED
      else if status resp = 413 then MathpixError FILE_TOO_LARGE
      else if status resp = 415 then MathpixError UNSUPPORTED_FORMAT
      else if status resp = 500 \<or> status resp = 502 \<or> status resp = 503 \<or> status resp = 504
        then MathpixError PROCESSING_ERROR
      else MathpixError NETWORK_ERROR)"

text \<open>
  \<open>retryWithDelay\<close> over an operation that reads and changes a state \<open>'s\<close>. Beside the
  outcome it yields what the wrapper itself did, in order: each call of the operation
  and each \<open>setTimeout\<close> wait, in milliseconds.
\<close>

datatype event = Invoked | Waited nat

definition retryable :: "thrown \<Rightarrow> bool" where
  "retryable e \<longleftrightarrow> e = MathpixError NETWORK_ERROR \<or> e = MathpixError PROCESSING_ERROR"

function retry_loop ::
  "('s \<Rightarrow> (thrown + 'a) \<times> 's) \<Rightarrow> nat \<Rightarrow> nat \<Rightarrow> 's \<Rightarrow> ((thrown + 'a) \<times> 's) \<times> event list" where
  "retry_loop operation retries attempt s =
     (if attempt \<le> retries then
        (case operation s of
           (Inr v, s') \<Rightarrow> ((Inr v, s'), [Invoked])
         | (Inl e, s') \<Rightarrow>
             if retryable e \<and> attempt < retries then
               (case retry_loop operation retries (attempt + 1) s' of
                  (out, evs) \<Rightarrow> (out, Invoked # Waited (RETRY_DELAY * attempt) # evs))
             else ((Inl e, s'), [Invoked]))
      else ((Inl (MathpixError TIMEOUT), s), []))"
  by pat_completeness auto
termination
  by (relation "measure (\<lambda>(operation, retries, attempt, s). retries + 1 - attempt)") auto

definition retryWithDelay ::
  "('s \<Rightarrow> (thrown + 'a) \<times> 's) \<Rightarrow> nat \<Rightarrow> 's \<Rightarrow> ((thrown + 'a) \<times> 's) \<times> event list" where
  "retryWithDelay operation retries s = retry_loop operation retries 1 s"

text \<open>\<open>waitForProcessing\<close>: the loop from \<open>attempt\<close> on. The wait of \<open>delayMs\<close> between two
  polls changes nothing the model holds.\<close>

function poll_loop :: "nat \<Rightarrow> world \<Rightarrow> (thrown + unit) \<times> world" where
  "poll_loop attempt w =
     (if attempt < 30 then
        (case fetch w of
           (None, w1) \<Rightarrow> (Inl (MathpixError PROCESSING_ERROR), w1)
         | (Some resp, w1) \<Rightarrow>
             if \<not> ok resp then (Inl (handleMathpixResponse resp), w1)
             else
               (case body_json resp of
                  None \<Rightarrow> (Inl (MathpixError PROCESSING_ERROR), w1)
                | Some st \<Rightarrow>
                    if job_status st = Some ''completed'' then (Inr (), w1)
                    else if job_status st = Some ''error''
                      then (Inl (MathpixError PROCESSING_ERROR), w1)
                    else poll_loop (attempt + 1) w1))
      else (Inl (MathpixError TIMEOUT), w))"
  by pat_completeness auto
termination
  by (relation "measure (\<lambda>(attempt, w). 30 - attempt)") auto

definition waitForProcessing :: "string \<Rightarrow> world \<Rightarrow> (thrown + unit) \<times> world" where
  "waitForProcessing pdfId w = poll_loop 0 w"

definition downloadMMD ::
  "string \<Rightarrow> string \<Rightarrow> string \<Rightarrow> world \<Rightarrow> (thrown + string) \<times> world" where
  "downloadMMD pdfId userId filename w =
     (case fetch w of
        (None, w1) \<Rightarrow> (Inl OtherError, w1)
      | (Some resp, w1) \<Rightarrow>
          if \<not> ok resp then (Inl (handleMathpixResponse resp), w1)
          else
            (let mmdContent = body_text resp
             in if trim mmdContent = [] then (Inl (MathpixError EMPTY_RESPONSE), w1)
                else if upload_ok w1 then
                  (Inr mmdContent,
                   w1\<lparr>uploaded :=
                        (''users/'' @ userId @ ''/mmd/'' @ filename, mmdContent) # uploaded w1\<rparr>)
                else (Inl OtherError, w1)))"

text \<open>
  The replacement text of \<open>String.prototype.replace\<close>: the pattern \<open>$$\<close> in it stands for
  one dollar sign (the other \<open>$\<close> patterns do not occur in this module), so the
  replacement written \<open>'$$'\<close> in the source inserts \<open>$\<close>, as \<open>'$'\<close> does.
\<close>

fun replacement :: "string \<Rightarrow> string" where
  "replacement (a # b # cs) =
     (if a = CHR ''$'' \<and> b = CHR ''$'' then CHR ''$'' # replacement cs
      else a # replacement (b # cs))"
| "replacement cs = cs"

text \<open>\<open>s.replace(/ab/g, rep)\<close> for a pattern of two literal characters: every match,
  left to right, without overlap.\<close>

fun replace_pair :: "char \<Rightarrow> char \<Rightarrow> string \<Rightarrow> string \<Rightarrow> string" where
  "replace_pair a b rep (x # y # zs) =
     (if x = a \<and> y = b then rep @ replace_pair a b rep zs
      else x # replace_pair a b rep (y # zs))"
| "replace_pair a b rep zs = zs"

definition backslash :: char where
  "backslash = CHR 0x5C"

definition newline :: char where
  "newline = CHR 0x0A"

text \<open>\<open>s.replace(/\n{3,}/g, '\n\n')\<close>: \<open>n\<close> counts the newlines of the run being read; a run
  of three or more is written back as two, a shorter one as it is.\<close>

definition flush :: "nat \<Rightarrow> string" where
  "flush n = replicate (if 3 \<le> n then 2 else n) newline"

fun collapse_from :: "nat \<Rightarrow> string \<Rightarrow> string" where
  "collapse_from n [] = flush n"
| "collapse_from n (c # cs) =
     (if c = newline then collapse_from (Suc n) cs
      else flush n @ c # collapse_from 0 cs)"

definition collapse_newlines :: "string \<Rightarrow> string" where
  "collapse_newlines s = collapse_from 0 s"

text \<open>The four delimiter replacements of \<open>processImageWithMathpix\<close>, in the source's order.\<close>

definition convert_delimiters :: "string \<Rightarrow> string" where
  "convert_delimiters s =
     replace_pair backslash CHR '')'' (replacement ''$'')
       (replace_pair backslash CHR ''('' (replacement ''$'')
         (replace_pair backslash CHR '']'' (replacement ''$$'')
           (replace_pair backslash CHR ''['' (replacement ''$$'') s)))"

text \<open>\<open>result.confidence < CONFIDENCE_THRESHOLD\<close>.\<close>

definition below_threshold :: "json_value \<Rightarrow> bool" where
  "below_threshold c = less_number (ToNumber c) CONFIDENCE_THRESHOLD"

definition processImageWithMathpix :: "string \<Rightarrow> world \<Rightarrow> (thrown + json_object) \<times> world" where
  "processImageWithMathpix imageUrl w =
     (case fetch w of
        (None, w1) \<Rightarrow> (Inl (MathpixError PROCESSING_ERROR), w1)
      | (Some resp, w1) \<Rightarrow>
          if \<not> ok resp then (Inl (handleMathpixResponse resp), w1)
          else
            (case body_json resp of
               None \<Rightarrow> (Inl (MathpixError PROCESSING_ERROR), w1)
             | Some result \<Rightarrow>
                 if truthy (error result) then (Inl (MathpixError PROCESSING_ERROR), w1)
                 else if below_threshold (confidence result)
                   then (Inl (MathpixError LOW_CONFIDENCE), w1)
                 else if \<not> truthy (text' result) \<and> \<not> truthy (latex_styled result)
                   then (Inl (MathpixError NO_MATH_DETECTED), w1)
                 else
                   (case latex_styled result of
                      None \<Rightarrow> (Inl (MathpixError PROCESSING_ERROR), w1)
                    | Some styled \<Rightarrow>
                        (let mmd' = trim (collapse_newlines (convert_delimiters styled))
                         in if mmd' = [] then (Inl (MathpixError EMPTY_RESPONSE), w1)
                            else (Inr (empty_object\<lparr>mmd := Some mmd', text' := text' result\<rparr>),
                                  w1)))))"

text \<open>The operation \<open>processWithMathpix\<close> hands to \<open>retryWithDelay\<close> for a document that is
  not an image.\<close>

definition pdfOperation ::
  "string \<Rightarrow> string \<Rightarrow> string \<Rightarrow> world \<Rightarrow> (thrown + json_object) \<times> world" where
  "pdfOperation storageUrl userId filename w =
     (case fetch w of
        (None, w1) \<Rightarrow> (Inl OtherError, w1)
      | (Some resp, w1) \<Rightarrow>
          if \<not> ok resp then (Inl (handleMathpixResponse resp), w1)
          else
            (case body_json resp of
               None \<Rightarrow> (Inl OtherError, w1)
             | Some result \<Rightarrow>
                 (case pdf_id result of
                    None \<Rightarrow> (Inl (MathpixError INVALID_CONTENT), w1)
                  | Some pid \<Rightarrow>
                      if pid = [] then (Inl (MathpixError INVALID_CONTENT), w1)
                      else
                        (case waitForProcessing pid w1 of
                           (Inl e, w2) \<Rightarrow> (Inl e, w2)
                         | (Inr u, w2) \<Rightarrow>
                             (case downloadMMD pid userId filename w2 of
                                (Inl e, w3) \<Rightarrow> (Inl e, w3)
                              | (Inr content', w3) \<Rightarrow>
                                  (Inr (result\<lparr>mmd := Some content'\<rparr>), w3))))))"

text \<open>\<open>/\.(jpg|jpeg|png)$/i.test(filename)\<close>: the \<open>i\<close> flag identifies a letter of the
  pattern with its other case only.\<close>

definition lower :: "char \<Rightarrow> char" where
  "lower c = (let n = (of_char c :: nat) in if 65 \<le> n \<and> n \<le> 90 then char_of (n + 32) else c)"

definition is_image :: "string \<Rightarrow> bool" where
  "is_image filename =
     (let f = map lower filename
      in suffix ''.jpg'' f \<or> suffix ''.jpeg'' f \<or> suffix ''.png'' f)"

definition processWithMathpix ::
  "string \<Rightarrow> string \<Rightarrow> string \<Rightarrow> world \<Rightarrow> (thrown + json_object) \<times> world" where
  "processWithMathpix storageUrl userId filename w =
     (if \<not> credentials w then (Inl (MathpixError INVALID_CREDENTIALS), w)
      else
        (case (if is_image filename
               then fst (retryWithDelay (processImageWithMathpix storageUrl) MAX_RETRIES w)
               else fst (retryWithDelay (pdfOperation storageUrl userId filename) MAX_RETRIES w))
         of (Inl (MathpixError code), w') \<Rightarrow> (Inl (MathpixError code), w')
          | (Inl OtherError, w') \<Rightarrow> (Inl (MathpixError PROCESSING_ERROR), w')
          | (Inr res, w') \<Rightarrow> (Inr res, w')))"

text \<open>Markup as the image path is to return it: not empty, without white space at
  either end, without three newlines in a row and without bracket markers.\<close>

definition normalised :: "string \<Rightarrow> bool" where
  "normalised m \<longleftrightarrow>
     m \<noteq> [] \<and> \<not> is_space (hd m) \<and> \<not> is_space (last m) \<and>
     \<not> sublist [newline, newline, newline] m \<and>
     \<not> sublist [backslash, CHR ''[''] m \<and> \<not> sublist [backslash, CHR '']''] m \<and>
     \<not> sublist [backslash, CHR ''(''] m \<and> \<not> sublist [backslash, CHR '')''] m"

section \<open>Concrete inputs\<close>

text \<open>Documents, stores and remote sides used as test points below.\<close>

definition doc1 :: PDFDocument where
  "doc1 = \<lparr>id' = ''1700000000000'', title = ''notes'', content = ''$a+b$'',
           timestamp = 1700000000000\<rparr>"

definition doc2 :: PDFDocument where
  "doc2 = \<lparr>id' = ''1700000000001'', title = ''more'', content = ''$c$'',
           timestamp = 1700000000001\<rparr>"

definition calc101 :: PDFDocument where
  "calc101 = \<lparr>id' = ''calc101.pdf.mmd'', title = ''calc101'', content = ''$x^2$'',
              timestamp = 1700000000002\<rparr>"

definition empty_storage :: AsyncStorage where
  "empty_storage = \<lparr>slots = Map.empty, available = True\<rparr>"

definition mirror_of :: "PDFDocument list \<Rightarrow> AsyncStorage" where
  "mirror_of docs = \<lparr>slots = [DOCUMENTS_STORAGE_KEY \<mapsto> docs], available = True\<rparr>"

text \<open>A remote side whose every call fails; one that lists no artifact; and the one of
  Scenario A.\<close>

definition unreachable :: remote where
  "unreachable = \<lparr>platform_web = False, listAll = (\<lambda>p. None), download = (\<lambda>p. None),
                   timed_out = (\<lambda>n. False), now = (\<lambda>n. 1700000000002)\<rparr>"

definition no_artifacts :: remote where
  "no_artifacts = unreachable\<lparr>listAll := (\<lambda>p. Some [])\<rparr>"

definition scenario_A :: remote where
  "scenario_A = unreachable
     \<lparr>listAll := (\<lambda>p. if p = ''users/u1/mmd'' then Some [''calc101.pdf.mmd''] else None),
      download := (\<lambda>p. if p = ''users/u1/mmd/calc101.pdf.mmd'' then Some ''$x^2$''
                         else None)\<rparr>"

text \<open>A response with a status and no body; a world with credentials, working uploads
  and the given responses to come; a recognition response with its plain text, styled
  output and confidence.\<close>

definition reply :: "nat \<Rightarrow> response" where
  "reply code = \<lparr>status = code, body_text = [], body_json = None\<rparr>"

definition world_of :: "response option list \<Rightarrow> world" where
  "world_of rs = \<lparr>credentials = True, responses = rs, upload_ok = True, uploaded = []\<rparr>"

definition recognised :: "string option \<Rightarrow> string option \<Rightarrow> json_value \<Rightarrow> json_object" where
  "recognised t styled c = empty_object\<lparr>text' := t, latex_styled := styled, confidence := c\<rparr>"

definition recognition :: "string option \<Rightarrow> string option \<Rightarrow> json_value \<Rightarrow> response" where
  "recognition t styled c =
     \<lparr>status = 200, body_text = [], body_json = Some (recognised t styled c)\<rparr>"

definition display_x :: string where
  "display_x = [backslash, CHR ''['', CHR ''x'', backslash, CHR '']'']"

definition inline_x :: string where
  "inline_x = [backslash, CHR ''('', CHR ''x'', backslash, CHR '')'']"

text \<open>The decimal \<open>0.69999999999999999\<close>.\<close>

definition just_below :: rat where
  "just_below = 69999999999999999 / 100000000000000000"

section \<open>Properties\<close>

declare retry_loop.simps [simp del]
declare poll_loop.simps [simp del]
declare bit_length.simps [simp del]

subsection \<open>Title derivation\<close>

lemma deriveTitle_fixed_iff:
  "deriveTitle y = y \<longleftrightarrow> \<not> suffix ''.mmd'' y \<and> \<not> suffix ''.pdf'' y"
  by (auto simp: deriveTitle_def replace_suffix_def suffix_def split: if_splits)

lemma suffix_append_same_length:
  "length a = length b \<Longrightarrow> suffix a (xs @ b) \<longleftrightarrow> a = b"
  by (auto simp: suffix_def)

lemma deriveTitle_base:
  assumes "\<not> suffix ''.mmd'' b" and "\<not> suffix ''.pdf'' b"
    and "ext \<in> {'''', ''.mmd'', ''.pdf'', ''.pdf.mmd''}"
  shows "deriveTitle (b @ ext) = b"
proof -
  have n1: "\<not> suffix ''.pdf.mmd'' b"
    using assms(1) by (auto simp: suffix_def)
  have n2: "\<not> suffix ''.mmd'' (b @ ''.pdf'')"
    using suffix_append_same_length [of "''.mmd''" "''.pdf''" b] by simp
  have n3: "\<not> suffix ''.pdf.mmd'' (b @ ''.pdf'')"
    using n2 by (auto simp: suffix_def)
  have s1: "suffix ''.mmd'' (b @ ''.pdf.mmd'')"
    by (auto simp: suffix_def)
  have s2: "suffix ''.mmd'' (b @ ''.mmd'')" "suffix ''.pdf'' (b @ ''.pdf'')"
    by (auto simp: suffix_def)
  have t: "take (length b + 4) (b @ ''.pdf.mmd'') = b @ ''.pdf''"
    by simp
  from assms(3) consider "ext = ''''" | "ext = ''.mmd''" | "ext = ''.pdf''" | "ext = ''.pdf.mmd''"
    by auto
  then show ?thesis
  proof cases
    case 1
    then show ?thesis
      using assms(1,2) n1 by (simp add: deriveTitle_def replace_suffix_def)
  next
    case 2
    then show ?thesis
      using assms(1,2) n1 s2 by (simp add: deriveTitle_def replace_suffix_def)
  next
    case 3
    then show ?thesis
      using n2 n3 s2 by (simp add: deriveTitle_def replace_suffix_def)
  next
    case 4
    then show ?thesis
      using s1 n3 s2 t by (simp add: deriveTitle_def replace_suffix_def)
  qed
qed

lemma deriveTitle_calc101: "deriveTitle ''calc101.pdf.mmd'' = ''calc101''"
  by (simp add: deriveTitle_def replace_suffix_def suffix_def)

text \<open>
  C7, as stated: title derivation is idempotent on every file name. It is not: a name
  with a stacked suffix loses one suffix per application. \<open>a.mmd.mmd\<close> gives \<open>a.mmd\<close>,
  which gives \<open>a\<close>.
\<close>

theorem deriveTitle_not_idempotent:
  "deriveTitle ''a.mmd.mmd'' = ''a.mmd'' \<and>
   deriveTitle (deriveTitle ''a.mmd.mmd'') = ''a'' \<and>
   deriveTitle (deriveTitle ''a.mmd.mmd'') \<noteq> deriveTitle ''a.mmd.mmd''"
  by (simp add: deriveTitle_def replace_suffix_def suffix_def)

text \<open>
  C7, amended: applying the derivation twice gives the same title as applying it once
  exactly when the derived title ends in neither \<open>.mmd\<close> nor \<open>.pdf\<close>. This is so for
  every name made of a base without such an ending followed by nothing, \<open>.mmd\<close>, \<open>.pdf\<close>
  or \<open>.pdf.mmd\<close>: the derived title is the base.
\<close>

theorem deriveTitle_idempotent_iff:
  "(deriveTitle (deriveTitle x) = deriveTitle x \<longleftrightarrow>
      \<not> suffix ''.mmd'' (deriveTitle x) \<and> \<not> suffix ''.pdf'' (deriveTitle x)) \<and>
   (\<not> suffix ''.mmd'' b \<and> \<not> suffix ''.pdf'' b \<and>
    ext \<in> {'''', ''.mmd'', ''.pdf'', ''.pdf.mmd''} \<longrightarrow>
      deriveTitle (b @ ext) = b \<and>
      deriveTitle (deriveTitle (b @ ext)) = deriveTitle (b @ ext))"
proof -
  have "deriveTitle (deriveTitle (b @ ext)) = deriveTitle (b @ ext)"
    if "\<not> suffix ''.mmd'' b" "\<not> suffix ''.pdf'' b"
       "ext \<in> {'''', ''.mmd'', ''.pdf'', ''.pdf.mmd''}"
    using that deriveTitle_base [of b ext] deriveTitle_fixed_iff [of b] by simp
  then show ?thesis
    using deriveTitle_fixed_iff [of "deriveTitle x"] deriveTitle_base [of b ext] by blast
qed

theorem deriveTitle_idempotent_iff_witness:
  "\<not> suffix ''.mmd'' ''calc101'' \<and> \<not> suffix ''.pdf'' ''calc101'' \<and>
   deriveTitle ''calc101.pdf.mmd'' = ''calc101'' \<and>
   deriveTitle (deriveTitle ''calc101.pdf.mmd'') = deriveTitle ''calc101.pdf.mmd''"
proof -
  have h: "\<not> suffix ''.mmd'' ''calc101''" "\<not> suffix ''.pdf'' ''calc101''"
    by (simp_all add: suffix_def)
  have e: "''.pdf.mmd'' \<in> {'''', ''.mmd'', ''.pdf'', ''.pdf.mmd''}"
    by simp
  from deriveTitle_idempotent_iff [of "''calc101.pdf.mmd''" "''calc101''" "''.pdf.mmd''"] h e
  have "deriveTitle (''calc101'' @ ''.pdf.mmd'') = ''calc101'' \<and>
        deriveTitle (deriveTitle (''calc101'' @ ''.pdf.mmd'')) =
          deriveTitle (''calc101'' @ ''.pdf.mmd'')"
    by blast
  then have a: "deriveTitle ''calc101.pdf.mmd'' = ''calc101''"
    and i: "deriveTitle (deriveTitle ''calc101.pdf.mmd'') = deriveTitle ''calc101.pdf.mmd''"
    unfolding append.simps by blast+
  from h a i show ?thesis
    by blast
qed

subsection \<open>The document resolver and the local mirror\<close>

lemma loadDocuments_clearDocumentCache: "loadDocuments (clearDocumentCache st) = []"
  by (simp add: loadDocuments_def clearDocumentCache_def)

lemma loadDocuments_mirror_of: "loadDocuments (mirror_of docs) = docs"
  by (simp add: loadDocuments_def mirror_of_def)

lemma fetchDocument_first_path:
  assumes "download r (''users/'' @ userId @ ''/mmd/'' @ name) = Some c" and "c \<noteq> []"
  shows "fetchDocument r name userId =
           Some \<lparr>id' = name, title = deriveTitle name, content = c, timestamp = now r name\<rparr>"
  using assms by (simp add: fetchDocument_def)

text \<open>
  C10: with \<open>forceRefresh\<close> false and a non-empty mirror, the resolver returns the
  mirror's records and leaves the mirror as it is, whatever the remote side is: two
  remote sides give the same result.
\<close>

theorem cache_first_ignores_remote:
  "loadDocuments st \<noteq> [] \<Longrightarrow>
     fetchStoredDocuments r1 userId False st = (loadDocuments st, st) \<and>
     fetchStoredDocuments r2 userId False st = fetchStoredDocuments r1 userId False st"
  by (simp add: fetchStoredDocuments_def)

theorem cache_first_ignores_remote_witness:
  "loadDocuments (mirror_of [doc1, doc2]) \<noteq> [] \<and>
   fetchStoredDocuments scenario_A ''u1'' False (mirror_of [doc1, doc2]) =
     ([doc1, doc2], mirror_of [doc1, doc2]) \<and>
   fetchStoredDocuments unreachable ''u1'' False (mirror_of [doc1, doc2]) =
     fetchStoredDocuments scenario_A ''u1'' False (mirror_of [doc1, doc2])"
  using cache_first_ignores_remote [of "mirror_of [doc1, doc2]" scenario_A "''u1''" unreachable]
  by (simp add: loadDocuments_mirror_of)

text \<open>
  C2, as stated: when the remote listing itself fails, the mirror is left untouched. It
  is not: with a forced refresh, a failed listing and a mirror holding one record, the
  mirror is empty afterwards.
\<close>

theorem listing_failure_clears_mirror:
  "listAll unreachable ''users/u1/mmd'' = None \<and>
   loadDocuments (mirror_of [doc1]) = [doc1] \<and>
   loadDocuments (snd (fetchStoredDocuments unreachable ''u1'' True (mirror_of [doc1]))) = [] \<and>
   snd (fetchStoredDocuments unreachable ''u1'' True (mirror_of [doc1])) \<noteq> mirror_of [doc1]"
proof -
  have a: "listAll unreachable ''users/u1/mmd'' = None"
    by (simp add: unreachable_def)
  have b: "loadDocuments (mirror_of [doc1]) = [doc1]"
    by (rule loadDocuments_mirror_of)
  have c: "loadDocuments (snd (fetchStoredDocuments unreachable ''u1'' True (mirror_of [doc1]))) = []"
    by (simp add: fetchStoredDocuments_def a loadDocuments_clearDocumentCache)
  from b c have "snd (fetchStoredDocuments unreachable ''u1'' True (mirror_of [doc1])) \<noteq> mirror_of [doc1]"
    by auto
  with a b c show ?thesis
    by simp
qed

text \<open>
  C2, amended: whenever the resolver consults the remote listing (a forced refresh, or
  an empty mirror) and the local store works: if the listing succeeds and at least one
  artifact resolves, the slot holds exactly the resolved records afterwards, and they
  are returned; if the listing succeeds with no item, the slot is removed and nothing is
  returned; if the listing fails, the slot is removed too and nothing is returned.
\<close>

theorem fetchStoredDocuments_mirror_policy:
  assumes "forceRefresh \<or> loadDocuments st = []" and "available st"
  shows "(listAll r (''users/'' @ userId @ ''/mmd'') = Some items \<and>
          List.map_filter (fetchWithTimeout r userId) items \<noteq> [] \<longrightarrow>
            fetchStoredDocuments r userId forceRefresh st =
              (List.map_filter (fetchWithTimeout r userId) items,
               st\<lparr>slots := (slots st)(DOCUMENTS_STORAGE_KEY \<mapsto>
                     List.map_filter (fetchWithTimeout r userId) items)\<rparr>)) \<and>
         (listAll r (''users/'' @ userId @ ''/mmd'') = Some [] \<longrightarrow>
            fetchStoredDocuments r userId forceRefresh st =
              ([], st\<lparr>slots := (slots st)(DOCUMENTS_STORAGE_KEY := None)\<rparr>)) \<and>
         (listAll r (''users/'' @ userId @ ''/mmd'') = None \<longrightarrow>
            fetchStoredDocuments r userId forceRefresh st =
              ([], st\<lparr>slots := (slots st)(DOCUMENTS_STORAGE_KEY := None)\<rparr>))"
  using assms
  by (auto simp: fetchStoredDocuments_def clearDocumentCache_def Let_def map_filter_simps)

theorem fetchStoredDocuments_mirror_policy_witness:
  "fetchStoredDocuments scenario_A ''u1'' True (mirror_of [doc1]) =
     ([calc101], (mirror_of [doc1])\<lparr>slots := (slots (mirror_of [doc1]))(DOCUMENTS_STORAGE_KEY \<mapsto> [calc101])\<rparr>) \<and>
   fetchStoredDocuments no_artifacts ''u1'' True (mirror_of [doc1]) =
     ([], (mirror_of [doc1])\<lparr>slots := (slots (mirror_of [doc1]))(DOCUMENTS_STORAGE_KEY := None)\<rparr>) \<and>
   fetchStoredDocuments unreachable ''u1'' True (mirror_of [doc1]) =
     ([], (mirror_of [doc1])\<lparr>slots := (slots (mirror_of [doc1]))(DOCUMENTS_STORAGE_KEY := None)\<rparr>)"
proof -
  have av: "available (mirror_of [doc1])"
    by (simp add: mirror_of_def)
  have la: "listAll scenario_A (''users/'' @ ''u1'' @ ''/mmd'') = Some [''calc101.pdf.mmd'']"
    by (simp add: scenario_A_def)
  have fa: "fetchDocument scenario_A ''calc101.pdf.mmd'' ''u1'' = Some calc101"
    using fetchDocument_first_path [of scenario_A "''u1''" "''calc101.pdf.mmd''" "''$x^2$''"]
    by (simp add: scenario_A_def unreachable_def calc101_def deriveTitle_calc101)
  have ra: "List.map_filter (fetchWithTimeout scenario_A ''u1'') [''calc101.pdf.mmd''] = [calc101]"
    by (simp add: map_filter_simps fetchWithTimeout_def fa) (simp add: scenario_A_def unreachable_def)
  have ln: "listAll no_artifacts (''users/'' @ ''u1'' @ ''/mmd'') = Some []"
    by (simp add: no_artifacts_def)
  have lu: "listAll unreachable (''users/'' @ ''u1'' @ ''/mmd'') = None"
    by (simp add: unreachable_def)
  show ?thesis
    using fetchStoredDocuments_mirror_policy
            [of True "mirror_of [doc1]" scenario_A "''u1''" "[''calc101.pdf.mmd'']"]
          fetchStoredDocuments_mirror_policy
            [of True "mirror_of [doc1]" no_artifacts "''u1''" "[]"]
          fetchStoredDocuments_mirror_policy
            [of True "mirror_of [doc1]" unreachable "''u1''" "[]"]
          av la ra ln lu
    by simp
qed

text \<open>
  C3, as stated: in Scenario A the record returned has the title \<open>calc101.pdf\<close>. It has
  not: the third replacement strips the \<open>.pdf\<close> that the first one uncovers, and the
  title is \<open>calc101\<close>.
\<close>

theorem scenario_A_title:
  "map title (fst (fetchStoredDocuments scenario_A ''u1'' True empty_storage)) = [''calc101''] \<and>
   map title (fst (fetchStoredDocuments scenario_A ''u1'' True empty_storage)) \<noteq> [''calc101.pdf'']"
  by (simp add: fetchStoredDocuments_def scenario_A_def unreachable_def empty_storage_def
      fetchWithTimeout_def fetchDocument_def deriveTitle_calc101 map_filter_simps Let_def)

text \<open>
  C3, amended: when the resolver consults the remote listing for owner \<open>u1\<close>, the listing
  returns exactly the artifact \<open>calc101.pdf.mmd\<close>, the download of the first candidate
  path returns \<open>$x^2$\<close>, the timer does not win the race and the local store works, the
  resolver returns exactly one record, with id \<open>calc101.pdf.mmd\<close>, title \<open>calc101\<close> and
  content \<open>$x^2$\<close>, and the slot holds exactly that record afterwards.
\<close>

theorem scenario_A_resolves:
  assumes "forceRefresh \<or> loadDocuments st = []" and "available st"
    and "listAll r ''users/u1/mmd'' = Some [''calc101.pdf.mmd'']"
    and "download r ''users/u1/mmd/calc101.pdf.mmd'' = Some ''$x^2$''"
    and "\<not> timed_out r ''calc101.pdf.mmd''"
  shows "fetchStoredDocuments r ''u1'' forceRefresh st =
           ([\<lparr>id' = ''calc101.pdf.mmd'', title = ''calc101'', content = ''$x^2$'',
              timestamp = now r ''calc101.pdf.mmd''\<rparr>],
            st\<lparr>slots := (slots st)(DOCUMENTS_STORAGE_KEY \<mapsto>
              [\<lparr>id' = ''calc101.pdf.mmd'', title = ''calc101'', content = ''$x^2$'',
                 timestamp = now r ''calc101.pdf.mmd''\<rparr>])\<rparr>)"
proof -
  have f: "fetchDocument r ''calc101.pdf.mmd'' ''u1'' =
      Some \<lparr>id' = ''calc101.pdf.mmd'', title = ''calc101'', content = ''$x^2$'',
            timestamp = now r ''calc101.pdf.mmd''\<rparr>"
    using fetchDocument_first_path [of r "''u1''" "''calc101.pdf.mmd''" "''$x^2$''"] assms(4)
    by (simp add: deriveTitle_calc101)
  show ?thesis
    using assms(1,2,3,5) f
    by (auto simp: fetchStoredDocuments_def fetchWithTimeout_def map_filter_simps Let_def)
qed

theorem scenario_A_resolves_witness:
  "fetchStoredDocuments scenario_A ''u1'' True empty_storage = ([calc101], mirror_of [calc101])"
proof -
  have h1: "True \<or> loadDocuments empty_storage = []"
    by simp
  have h2: "available empty_storage"
    by (simp add: empty_storage_def)
  have h3: "listAll scenario_A ''users/u1/mmd'' = Some [''calc101.pdf.mmd'']"
    by (simp add: scenario_A_def)
  have h4: "download scenario_A ''users/u1/mmd/calc101.pdf.mmd'' = Some ''$x^2$''"
    by (simp add: scenario_A_def)
  have h5: "\<not> timed_out scenario_A ''calc101.pdf.mmd''"
    by (simp add: scenario_A_def unreachable_def)
  have n: "now scenario_A ''calc101.pdf.mmd'' = 1700000000002"
    by (simp add: scenario_A_def unreachable_def)
  show ?thesis
    using scenario_A_resolves [OF h1 h2 h3 h4 h5]
    by (simp add: n calc101_def empty_storage_def mirror_of_def)
qed

text \<open>
  C6, as stated: a record saved into the mirror for user A is never returned by the
  resolver for a different user B. It is: the record saved for \<open>A\<close> is what the resolver
  returns for \<open>B\<close>.
\<close>

theorem mirror_leaks_between_users:
  "''A'' \<noteq> ''B'' \<and>
   fst (fetchStoredDocuments unreachable ''B'' False
          (snd (saveDocument ''A'' doc1 empty_storage))) = [doc1]"
  by (simp add: saveDocument_def fetchStoredDocuments_def loadDocuments_def Let_def
      empty_storage_def)

text \<open>
  C6, amended: the local mirror is the one slot \<open>user_documents\<close>, shared by all users.
  \<open>saveDocument\<close> does the same for every user id, and while the local store works a
  record saved for user A is returned for every user B by the resolver without forced
  refresh, in front of the records the mirror held before.
\<close>

theorem mirror_shared_by_all_users:
  "available st \<Longrightarrow>
     saveDocument userA d st = saveDocument userB d st \<and>
     fst (fetchStoredDocuments r userB False (snd (saveDocument userA d st))) =
       d # loadDocuments st"
  by (simp add: saveDocument_def fetchStoredDocuments_def loadDocuments_def Let_def)

theorem mirror_shared_by_all_users_witness:
  "available (mirror_of [doc2]) \<and>
   saveDocument ''A'' doc1 (mirror_of [doc2]) = saveDocument ''B'' doc1 (mirror_of [doc2]) \<and>
   fst (fetchStoredDocuments scenario_A ''B'' False (snd (saveDocument ''A'' doc1 (mirror_of [doc2])))) =
     [doc1, doc2]"
proof -
  have h: "available (mirror_of [doc2])"
    by (simp add: mirror_of_def)
  from mirror_shared_by_all_users [OF h, of "''A''" doc1 "''B''" scenario_A] h
  show ?thesis
    unfolding loadDocuments_mirror_of by blast
qed

subsection \<open>Error translation\<close>

text \<open>
  C4, as stated: every 5xx response is translated to \<open>processing_error\<close>. It is not:
  status 501 is a non-success 5xx status, and it is translated to \<open>network_error\<close>.
\<close>

theorem status_501_network_error:
  "\<not> ok (reply 501) \<and> 500 \<le> status (reply 501) \<and> status (reply 501) \<le> 599 \<and>
   handleMathpixResponse (reply 501) = MathpixError NETWORK_ERROR \<and>
   handleMathpixResponse (reply 501) \<noteq> MathpixError PROCESSING_ERROR"
  by (simp add: handleMathpixResponse_def reply_def ok_def)

text \<open>
  C4, amended: the translation fails with the kind the status code determines:
  \<open>invalid_content\<close> exactly on 400, \<open>invalid_credentials\<close> on 401, \<open>rate_limit_exceeded\<close>
  on 429, \<open>file_too_large\<close> on 413, \<open>unsupported_format\<close> on 415, \<open>processing_error\<close>
  exactly on 500, 502, 503 and 504, and \<open>network_error\<close> on every other status.
\<close>

theorem handleMathpixResponse_kinds:
  "(handleMathpixResponse resp = MathpixError INVALID_CONTENT \<longleftrightarrow> status resp = 400) \<and>
   (handleMathpixResponse resp = MathpixError INVALID_CREDENTIALS \<longleftrightarrow> status resp = 401) \<and>
   (handleMathpixResponse resp = MathpixError RATE_LIMIT_EXCEEDED \<longleftrightarrow> status resp = 429) \<and>
   (handleMathpixResponse resp = MathpixError FILE_TOO_LARGE \<longleftrightarrow> status resp = 413) \<and>
   (handleMathpixResponse resp = MathpixError UNSUPPORTED_FORMAT \<longleftrightarrow> status resp = 415) \<and>
   (handleMathpixResponse resp = MathpixError PROCESSING_ERROR \<longleftrightarrow>
      status resp \<in> {500, 502, 503, 504}) \<and>
   (handleMathpixResponse resp = MathpixError NETWORK_ERROR \<longleftrightarrow>
      status resp \<notin> {400, 401, 429, 413, 415, 500, 502, 503, 504})"
  by (simp add: handleMathpixResponse_def)

theorem handleMathpixResponse_kinds_witness:
  "handleMathpixResponse (reply 503) = MathpixError PROCESSING_ERROR \<and>
   handleMathpixResponse (reply 404) = MathpixError NETWORK_ERROR"
  using handleMathpixResponse_kinds [of "reply 503"] handleMathpixResponse_kinds [of "reply 404"]
  by (simp add: reply_def)

subsection \<open>Retry policy\<close>

lemma retry_loop_throw:
  "attempt \<le> retries \<Longrightarrow> operation s = (Inl e, s') \<Longrightarrow> \<not> retryable e \<Longrightarrow>
     retry_loop operation retries attempt s = ((Inl e, s'), [Invoked])"
  by (subst retry_loop.simps) simp

lemma retry_loop_return:
  "attempt \<le> retries \<Longrightarrow> operation s = (Inr v, s') \<Longrightarrow>
     retry_loop operation retries attempt s = ((Inr v, s'), [Invoked])"
  by (subst retry_loop.simps) simp

lemma retry_loop_last:
  "operation s = (Inl e, s') \<Longrightarrow>
     retry_loop operation retries retries s = ((Inl e, s'), [Invoked])"
  by (subst retry_loop.simps) simp

lemma retryWithDelay_first:
  "0 < retries \<Longrightarrow> operation s = (r, s') \<Longrightarrow>
   (case r of Inl e \<Rightarrow> \<not> retryable e | Inr v \<Rightarrow> True) \<Longrightarrow>
     retryWithDelay operation retries s = ((r, s'), [Invoked])"
  unfolding retryWithDelay_def
  by (cases r) (simp_all add: retry_loop_throw retry_loop_return)

lemma pdfOperation_not_ok:
  assumes "responses w = Some resp # rest" and "\<not> ok resp"
  shows "pdfOperation storageUrl userId filename w =
           (Inl (handleMathpixResponse resp), w\<lparr>responses := rest\<rparr>)"
  using assms by (simp add: pdfOperation_def fetch_def)

text \<open>
  C8: when the first call of the wrapped operation fails with a kind other than
  \<open>network_error\<close> and \<open>processing_error\<close>, \<open>retryWithDelay\<close> (with at least one attempt
  allowed, as with the default of three) calls the operation exactly once, waits for
  nothing, and fails with the same error, leaving the state as the operation left it.
\<close>

theorem retryWithDelay_propagates:
  "0 < retries \<Longrightarrow> operation s = (Inl (MathpixError k), s') \<Longrightarrow>
   k \<noteq> NETWORK_ERROR \<Longrightarrow> k \<noteq> PROCESSING_ERROR \<Longrightarrow>
     retryWithDelay operation retries s = ((Inl (MathpixError k), s'), [Invoked])"
  unfolding retryWithDelay_def
  by (rule retry_loop_throw) (simp_all add: retryable_def)

theorem retryWithDelay_propagates_witness:
  "0 < MAX_RETRIES \<and>
   pdfOperation ''url'' ''u1'' ''calc101.pdf'' (world_of [Some (reply 429)]) =
     (Inl (MathpixError RATE_LIMIT_EXCEEDED), world_of []) \<and>
   RATE_LIMIT_EXCEEDED \<noteq> NETWORK_ERROR \<and> RATE_LIMIT_EXCEEDED \<noteq> PROCESSING_ERROR \<and>
   retryWithDelay (pdfOperation ''url'' ''u1'' ''calc101.pdf'') MAX_RETRIES
       (world_of [Some (reply 429)]) =
     ((Inl (MathpixError RATE_LIMIT_EXCEEDED), world_of []), [Invoked])"
proof -
  have h1: "0 < MAX_RETRIES"
    by (simp add: MAX_RETRIES_def)
  have h2: "pdfOperation ''url'' ''u1'' ''calc101.pdf'' (world_of [Some (reply 429)]) =
      (Inl (MathpixError RATE_LIMIT_EXCEEDED), world_of [])"
    using pdfOperation_not_ok [of "world_of [Some (reply 429)]" "reply 429" "[]"]
    by (simp add: world_of_def reply_def ok_def handleMathpixResponse_def)
  have h3: "RATE_LIMIT_EXCEEDED \<noteq> NETWORK_ERROR" and h4: "RATE_LIMIT_EXCEEDED \<noteq> PROCESSING_ERROR"
    by simp_all
  from retryWithDelay_propagates
         [of MAX_RETRIES "pdfOperation ''url'' ''u1'' ''calc101.pdf''"
             "world_of [Some (reply 429)]" RATE_LIMIT_EXCEEDED "world_of []"]
       h1 h2 h3 h4
  have "retryWithDelay (pdfOperation ''url'' ''u1'' ''calc101.pdf'') MAX_RETRIES
          (world_of [Some (reply 429)]) =
        ((Inl (MathpixError RATE_LIMIT_EXCEEDED), world_of []), [Invoked])"
    by blast
  with h1 h2 show ?thesis
    by simp
qed

text \<open>Scenario C at the orchestrator: a 429 answer to the submission of a document is
  one call, no retry, and \<open>rate_limit_exceeded\<close> for the caller.\<close>

lemma scenario_C:
  assumes "credentials w" and "\<not> is_image filename"
    and "responses w = Some resp # rest" and "status resp = 429"
  shows "processWithMathpix storageUrl userId filename w =
           (Inl (MathpixError RATE_LIMIT_EXCEEDED), w\<lparr>responses := rest\<rparr>)"
proof -
  have "\<not> ok resp"
    using assms(4) by (simp add: ok_def)
  then have op: "pdfOperation storageUrl userId filename w =
      (Inl (MathpixError RATE_LIMIT_EXCEEDED), w\<lparr>responses := rest\<rparr>)"
    using pdfOperation_not_ok [OF assms(3)] assms(4) by (simp add: handleMathpixResponse_def)
  have "retryWithDelay (pdfOperation storageUrl userId filename) MAX_RETRIES w =
      ((Inl (MathpixError RATE_LIMIT_EXCEEDED), w\<lparr>responses := rest\<rparr>), [Invoked])"
    using op by (intro retryWithDelay_first) (simp_all add: retryable_def MAX_RETRIES_def)
  then show ?thesis
    using assms(1,2) by (simp add: processWithMathpix_def)
qed

text \<open>
  When every call of the operation fails with \<open>network_error\<close> or \<open>processing_error\<close>,
  \<open>retryWithDelay\<close> calls it \<open>retries\<close> times and waits \<open>RETRY_DELAY * n\<close> after the
  \<open>n\<close>-th failed call, that is before attempt \<open>n + 1\<close>. What it throws in the end is the
  error of the last call, never \<open>timeout\<close>.
\<close>

lemma retry_loop_exhausted:
  assumes fails: "\<And>s. \<exists>e s'. operation s = (Inl e, s') \<and> retryable e"
  shows "0 < attempt \<Longrightarrow> attempt \<le> retries \<Longrightarrow>
    \<exists>e s'. retryable e \<and>
      retry_loop operation retries attempt s =
        ((Inl e, s'),
         concat (map (\<lambda>n. [Invoked, Waited (RETRY_DELAY * n)]) [attempt..<retries]) @ [Invoked])"
proof (induction "retries - attempt" arbitrary: attempt s)
  case 0
  then have eq: "attempt = retries"
    by simp
  from fails obtain e s' where op: "operation s = (Inl e, s')" and re: "retryable e"
    by blast
  show ?case
    unfolding eq using retry_loop_last [of operation s e s' retries] op re by auto
next
  case (Suc d)
  then have lt: "attempt < retries"
    by simp
  from fails obtain e s' where op: "operation s = (Inl e, s')" and re: "retryable e"
    by blast
  have d: "d = retries - (attempt + 1)"
    using Suc.hyps(2) by simp
  have pos: "0 < attempt + 1" and le: "attempt + 1 \<le> retries"
    using lt by simp_all
  from Suc.hyps(1) [OF d pos le, of s']
  obtain e2 s2 where re2: "retryable e2" and
    rest: "retry_loop operation retries (attempt + 1) s' =
        ((Inl e2, s2),
         concat (map (\<lambda>n. [Invoked, Waited (RETRY_DELAY * n)]) [attempt + 1..<retries]) @ [Invoked])"
    by auto
  have upt: "[attempt..<retries] = attempt # [attempt + 1..<retries]"
    using lt by (simp add: upt_conv_Cons)
  have "retry_loop operation retries attempt s =
        ((Inl e2, s2),
         concat (map (\<lambda>n. [Invoked, Waited (RETRY_DELAY * n)]) [attempt..<retries]) @ [Invoked])"
    using lt op re rest by (subst retry_loop.simps) (simp add: upt)
  with re2 show ?case
    by blast
qed

lemma count_invoked:
  "length (filter (\<lambda>ev. ev = Invoked)
     (concat (map (\<lambda>n. [Invoked, Waited (RETRY_DELAY * n)]) ns) @ [Invoked])) = Suc (length ns)"
  by (induction ns) simp_all

lemma retryWithDelay_exhausted:
  assumes "\<And>s. \<exists>e s'. operation s = (Inl e, s') \<and> retryable e" and "0 < retries"
  shows "\<exists>e s' evs. retryWithDelay operation retries s = ((Inl e, s'), evs) \<and>
           retryable e \<and> e \<noteq> MathpixError TIMEOUT \<and>
           length (filter (\<lambda>ev. ev = Invoked) evs) = retries \<and>
           evs = concat (map (\<lambda>n. [Invoked, Waited (RETRY_DELAY * n)]) [1..<retries]) @ [Invoked]"
proof -
  from retry_loop_exhausted [of operation 1 retries s] assms
  obtain e s' where re: "retryable e" and
    eq: "retry_loop operation retries 1 s =
        ((Inl e, s'), concat (map (\<lambda>n. [Invoked, Waited (RETRY_DELAY * n)]) [1..<retries]) @ [Invoked])"
    by (metis One_nat_def Suc_leI zero_less_one)
  have "e \<noteq> MathpixError TIMEOUT"
    using re by (auto simp: retryable_def)
  moreover have "length (filter (\<lambda>ev. ev = Invoked)
     (concat (map (\<lambda>n. [Invoked, Waited (RETRY_DELAY * n)]) [1..<retries]) @ [Invoked])) = retries"
    using assms(2) by (simp only: count_invoked) simp
  ultimately show ?thesis
    unfolding retryWithDelay_def using re eq by blast
qed

text \<open>
  C1 at a failing input: the submission of a document is answered with status 503 three
  times. The operation is called three times, with waits of 2000 and 4000 milliseconds
  before the second and the third call, as the claim says; but the error raised in the
  end is the \<open>processing_error\<close> of the third call, where the claim says \<open>timeout\<close>.
\<close>

theorem retryWithDelay_three_failures:
  "retryWithDelay (pdfOperation ''url'' ''u1'' ''calc101.pdf'') MAX_RETRIES
      (world_of [Some (reply 503), Some (reply 503), Some (reply 503)]) =
     ((Inl (MathpixError PROCESSING_ERROR), world_of []),
      [Invoked, Waited 2000, Invoked, Waited 4000, Invoked]) \<and>
   fst (processWithMathpix ''url'' ''u1'' ''calc101.pdf''
      (world_of [Some (reply 503), Some (reply 503), Some (reply 503)])) \<noteq>
     Inl (MathpixError TIMEOUT)"
  by (simp add: retryWithDelay_def retry_loop.simps MAX_RETRIES_def RETRY_DELAY_def retryable_def
      pdfOperation_def world_of_def reply_def fetch_def ok_def handleMathpixResponse_def
      processWithMathpix_def is_image_def lower_def suffix_def)

subsection \<open>The orchestrator\<close>

lemma taxonomy_eleven: "card (UNIV :: MathpixErrorCode set) = 11"
proof -
  have "(UNIV :: MathpixErrorCode set) =
      {INVALID_CREDENTIALS, RATE_LIMIT_EXCEEDED, FILE_TOO_LARGE, UNSUPPORTED_FORMAT,
       PROCESSING_ERROR, EMPTY_RESPONSE, NETWORK_ERROR, TIMEOUT, LOW_CONFIDENCE,
       NO_MATH_DETECTED, INVALID_CONTENT}"
    by (auto intro: MathpixErrorCode.exhaust)
  moreover have "card {INVALID_CREDENTIALS, RATE_LIMIT_EXCEEDED, FILE_TOO_LARGE,
       UNSUPPORTED_FORMAT, PROCESSING_ERROR, EMPTY_RESPONSE, NETWORK_ERROR, TIMEOUT,
       LOW_CONFIDENCE, NO_MATH_DETECTED, INVALID_CONTENT} = 11"
    by simp
  ultimately show ?thesis
    by (simp only:)
qed




subsection \<open>Numbers and the confidence threshold\<close>

text \<open>The value of the threshold: the binary64 value that the literal \<open>0.7\<close> denotes.\<close>

lemma threshold_value: "CONFIDENCE_THRESHOLD = Finite (6305039478318694 / 9007199254740992)"
  unfolding CONFIDENCE_THRESHOLD_def by code_simp

lemma pow2_power_int: "pow2 e = power_int 2 e"
  by (simp add: pow2_def power_int_def field_simps)

lemma pow2_pos: "0 < pow2 e"
  by (simp add: pow2_power_int)

lemma pow2_add: "pow2 (a + b) = pow2 a * pow2 b"
  by (simp add: pow2_power_int power_int_add)

lemma pow2_mono: "a \<le> b \<Longrightarrow> pow2 a \<le> pow2 b"
  by (simp add: pow2_power_int power_int_increasing)

lemma pow2_strict_mono: "a < b \<Longrightarrow> pow2 a < pow2 b"
  by (simp add: pow2_power_int power_int_strict_increasing)

lemma pow2_values:
  "pow2 53 = 9007199254740992" "pow2 52 = 4503599627370496" "pow2 (- 1) = 1 / 2" "pow2 0 = 1"
  by (simp_all add: pow2_def)

lemma bit_length_nonpos: "n \<le> 0 \<Longrightarrow> bit_length n = 0"
  by (subst bit_length.simps) simp

lemma bit_length_pos: "0 < n \<Longrightarrow> bit_length n = bit_length (n div 2) + 1"
  by (subst bit_length.simps) simp

lemma bit_length_ge0: "0 \<le> bit_length n"
proof (induction n rule: bit_length.induct)
  case (1 n)
  then show ?case
    by (cases "n \<le> 0") (simp_all add: bit_length_nonpos bit_length_pos)
qed

lemma bit_length_bounds:
  "0 < n \<Longrightarrow> pow2 (bit_length n - 1) \<le> of_int n \<and> of_int n < pow2 (bit_length n)"
proof (induction n rule: bit_length.induct)
  case (1 n)
  show ?case
  proof (cases "n = 1")
    case True
    then show ?thesis
      by (simp add: bit_length_pos bit_length_nonpos pow2_def)
  next
    case False
    with "1.prems" have h: "0 < n div 2" by simp
    have ih: "pow2 (bit_length (n div 2) - 1) \<le> of_int (n div 2)"
       "of_int (n div 2) < pow2 (bit_length (n div 2))"
      using "1.IH" "1.prems" h by simp_all
    have bl: "bit_length n = bit_length (n div 2) + 1"
      using "1.prems" by (rule bit_length_pos)
    have lo: "(2::rat) * of_int (n div 2) \<le> of_int n"
    proof -
      have "2 * (n div 2) \<le> n" by simp
      then have "(of_int (2 * (n div 2)) :: rat) \<le> of_int n" by (simp only: of_int_le_iff)
      then show ?thesis by simp
    qed
    have hi: "(of_int n :: rat) + 1 \<le> 2 * (of_int (n div 2) + 1)"
    proof -
      have "n + 1 \<le> 2 * (n div 2 + 1)" by presburger
      then have "(of_int (n + 1) :: rat) \<le> of_int (2 * (n div 2 + 1))" by (simp only: of_int_le_iff)
      then show ?thesis by simp
    qed
    have i2: "(of_int (n div 2) :: rat) + 1 \<le> pow2 (bit_length (n div 2))"
    proof -
      have ge: "0 \<le> bit_length (n div 2)" by (rule bit_length_ge0)
      then have "pow2 (bit_length (n div 2)) = of_int (2 ^ nat (bit_length (n div 2)))"
        by (simp add: pow2_def)
      moreover have "n div 2 < 2 ^ nat (bit_length (n div 2))"
        using ih(2) ge by (simp add: pow2_def)
      ultimately show ?thesis
        by (metis add.commute of_int_1 of_int_add of_int_le_iff zless_imp_add1_zle add.commute)
    qed
    have p1: "pow2 (bit_length n - 1) = 2 * pow2 (bit_length (n div 2) - 1)"
      using pow2_add [of 1 "bit_length (n div 2) - 1"] by (simp add: bl pow2_def)
    have p2: "pow2 (bit_length n) = 2 * pow2 (bit_length (n div 2))"
      using pow2_add [of 1 "bit_length (n div 2)"] by (simp add: bl pow2_def add.commute)
    show ?thesis
      using ih(1) lo hi i2 by (simp add: p1 p2)
  qed
qed

lemma exponent_of_bounds:
  assumes "0 < q"
  shows "pow2 (exponent_of q) \<le> q \<and> q < pow2 (exponent_of q + 1)"
proof -
  obtain a b where ab: "quotient_of q = (a, b)"
    by (cases "quotient_of q")
  have b: "0 < b"
    using ab by (rule quotient_of_denom_pos)
  have q: "q = of_int a / of_int b"
    using ab by (rule quotient_of_div)
  have a: "0 < a"
    using assms b unfolding q by (simp add: zero_less_divide_iff)
  let ?k = "bit_length a - bit_length b"
  note ba = bit_length_bounds [OF a] and bb = bit_length_bounds [OF b]
  have bpos: "(0::rat) < of_int b"
    using b by simp
  have up: "q < pow2 (?k + 1)"
  proof -
    have "of_int a * pow2 (bit_length b - 1) < pow2 (bit_length a) * of_int b"
      using ba bb a b pow2_pos [of "bit_length b - 1"] pow2_pos [of "bit_length a"]
      by (meson less_le_trans mult_le_cancel_left_pos mult_less_le_imp_less of_int_0_le_iff
          of_int_pos less_imp_le)
    moreover have "pow2 (bit_length a) = pow2 (?k + 1) * pow2 (bit_length b - 1)"
      using pow2_add [of "?k + 1" "bit_length b - 1"] by simp
    ultimately have "of_int a * pow2 (bit_length b - 1) < pow2 (?k + 1) * of_int b * pow2 (bit_length b - 1)"
      by (simp add: mult.assoc mult.left_commute mult.commute)
    then have "of_int a < pow2 (?k + 1) * of_int b"
      using pow2_pos [of "bit_length b - 1"] by simp
    then show ?thesis
      unfolding q using bpos by (simp add: pos_divide_less_eq)
  qed
  have lo: "pow2 (?k - 1) < q"
  proof -
    have "pow2 (bit_length a - 1) * of_int b < of_int a * pow2 (bit_length b)"
      using ba bb a b pow2_pos [of "bit_length b"] pow2_pos [of "bit_length a - 1"]
      by (meson le_less_trans mult_le_cancel_right_pos mult_less_cancel_left_pos of_int_pos)
    moreover have "pow2 (bit_length a - 1) = pow2 (?k - 1) * pow2 (bit_length b)"
      using pow2_add [of "?k - 1" "bit_length b"] by simp
    ultimately have "pow2 (?k - 1) * of_int b * pow2 (bit_length b) < of_int a * pow2 (bit_length b)"
      by (simp add: mult.assoc mult.left_commute mult.commute)
    then have "pow2 (?k - 1) * of_int b < of_int a"
      using pow2_pos [of "bit_length b"] by simp
    then show ?thesis
      unfolding q using bpos by (simp add: pos_less_divide_eq)
  qed
  show ?thesis
  proof (cases "pow2 ?k \<le> q")
    case True
    then have "exponent_of q = ?k"
      by (simp add: exponent_of_def ab Let_def)
    with True up show ?thesis by simp
  next
    case False
    then have "exponent_of q = ?k - 1"
      by (simp add: exponent_of_def ab Let_def)
    with False lo show ?thesis by simp
  qed
qed

lemma exponent_of_unique:
  assumes "0 < q" and "pow2 e \<le> q" and "q < pow2 (e + 1)"
  shows "exponent_of q = e"
proof -
  note b = exponent_of_bounds [OF assms(1)]
  have "\<not> exponent_of q < e"
  proof
    assume "exponent_of q < e"
    then have "pow2 (exponent_of q + 1) \<le> pow2 e" by (intro pow2_mono) simp
    with b assms(2) show False by simp
  qed
  moreover have "\<not> e < exponent_of q"
  proof
    assume "e < exponent_of q"
    then have "pow2 (e + 1) \<le> pow2 (exponent_of q)" by (intro pow2_mono) simp
    with b assms(3) show False by simp
  qed
  ultimately show ?thesis by simp
qed

lemma round_half_even_le: "x \<le> of_int n \<Longrightarrow> round_half_even x \<le> n"
  unfolding round_half_even_def Let_def
  by (auto simp: floor_le_iff le_floor_iff)

lemma round_half_even_ge: "of_int n \<le> x \<Longrightarrow> n \<le> round_half_even x"
proof -
  assume "of_int n \<le> x"
  then have "n \<le> \<lfloor>x\<rfloor>" by (simp add: le_floor_iff)
  then show ?thesis
    unfolding round_half_even_def Let_def by auto
qed

lemma round_half_even_less_even:
  assumes "even n"
  shows "round_half_even x < n \<longleftrightarrow> x < of_int n - 1 / 2"
proof -
  define f where "f = \<lfloor>x\<rfloor>"
  define d where "d = x - of_int f"
  have fl: "of_int f \<le> x" "x < of_int f + 1"
    unfolding f_def by linarith+
  have r: "round_half_even x =
      (if d < 1 / 2 then f else if 1 / 2 < d then f + 1 else if even f then f else f + 1)"
    unfolding round_half_even_def Let_def f_def d_def by simp
  consider "f \<le> n - 2" | "f = n - 1" | "n \<le> f"
    by linarith
  then show ?thesis
  proof cases
    case 1
    then have "(of_int f :: rat) \<le> of_int (n - 2)" by (simp only: of_int_le_iff)
    then have "x < of_int n - 1 / 2" using fl(2) by simp
    moreover have "round_half_even x < n" using 1 unfolding r by auto
    ultimately show ?thesis by simp
  next
    case 2
    then have odd: "odd f" using assms by simp
    have dx: "d = x - of_int n + 1" unfolding d_def 2 by simp
    show ?thesis
      unfolding r using odd 2 dx by auto
  next
    case 3
    then have "(of_int n :: rat) \<le> of_int f" by (simp only: of_int_le_iff)
    then have "\<not> x < of_int n - 1 / 2" using fl(1) by simp
    moreover have "\<not> round_half_even x < n" using 3 unfolding r by auto
    ultimately show ?thesis by simp
  qed
qed

lemma binary64_small:
  assumes "0 < q" and "q < 1 / 2"
  shows "\<exists>v. binary64 q = Finite v \<and> v \<le> 1 / 2"
proof -
  let ?e = "max (exponent_of q) (- 1022)"
  note b = exponent_of_bounds [OF assms(1)]
  have "\<not> - 1 \<le> exponent_of q"
  proof
    assume "- 1 \<le> exponent_of q"
    then have "pow2 (- 1) \<le> pow2 (exponent_of q)" by (rule pow2_mono)
    with b assms(2) show False by (simp add: pow2_values)
  qed
  then have e: "?e \<le> - 2" by simp
  have "q < pow2 (?e + 1)"
    using b pow2_mono [of "exponent_of q + 1" "?e + 1"] by simp
  also have "pow2 (?e + 1) = pow2 53 * pow2 (?e - 52)"
    using pow2_add [of 53 "?e - 52"] by (simp add: add.commute)
  finally have "q / pow2 (?e - 52) < pow2 53"
    using pow2_pos [of "?e - 52"] by (simp add: pos_divide_less_eq)
  then have "q / pow2 (?e - 52) \<le> of_int (2 ^ 53)"
    by (simp add: pow2_values)
  then have m: "round_half_even (q / pow2 (?e - 52)) \<le> 2 ^ 53"
    by (rule round_half_even_le)
  have fin: "binary64_pos q = Finite (of_int (round_half_even (q / pow2 (?e - 52))) * pow2 (?e - 52))"
    using e unfolding binary64_pos_def Let_def by (auto simp: max_def)
  have "of_int (round_half_even (q / pow2 (?e - 52))) * pow2 (?e - 52) \<le> of_int (2 ^ 53) * pow2 (?e - 52)"
    using m pow2_pos [of "?e - 52"] by (simp only: mult_le_cancel_right_pos of_int_le_iff)
  also have "of_int (2 ^ 53) * pow2 (?e - 52) = pow2 (?e + 1)"
    using pow2_add [of 53 "?e - 52"] by (simp add: pow2_values add.commute)
  also have "pow2 (?e + 1) \<le> pow2 (- 1)"
    using e by (intro pow2_mono) simp
  finally have "of_int (round_half_even (q / pow2 (?e - 52))) * pow2 (?e - 52) \<le> 1 / 2"
    by (simp add: pow2_values)
  then show ?thesis
    using assms(1) fin by (simp add: binary64_def)
qed

lemma binary64_large:
  assumes "1 \<le> q"
  shows "binary64 q = PlusInfinity \<or> (\<exists>v. binary64 q = Finite v \<and> 1 \<le> v)"
proof -
  have pos: "0 < q" using assms by simp
  note b = exponent_of_bounds [OF pos]
  have e0: "0 \<le> exponent_of q"
  proof (rule ccontr)
    assume "\<not> 0 \<le> exponent_of q"
    then have "pow2 (exponent_of q + 1) \<le> pow2 0" by (intro pow2_mono) simp
    with b assms show False by (simp add: pow2_values)
  qed
  then have mx: "max (exponent_of q) (- 1022) = exponent_of q" by simp
  let ?e = "exponent_of q"
  have "pow2 ?e = pow2 52 * pow2 (?e - 52)"
    using pow2_add [of 52 "?e - 52"] by simp
  then have "pow2 52 \<le> q / pow2 (?e - 52)"
    using b pow2_pos [of "?e - 52"] by (simp add: pos_le_divide_eq)
  then have "of_int (2 ^ 52) \<le> q / pow2 (?e - 52)"
    by (simp add: pow2_values)
  then have m: "2 ^ 52 \<le> round_half_even (q / pow2 (?e - 52))"
    by (rule round_half_even_ge)
  have "pow2 ?e = of_int (2 ^ 52) * pow2 (?e - 52)"
    using pow2_add [of 52 "?e - 52"] by (simp add: pow2_values)
  also have "\<dots> \<le> of_int (round_half_even (q / pow2 (?e - 52))) * pow2 (?e - 52)"
    using m pow2_pos [of "?e - 52"] by (simp only: mult_le_cancel_right_pos of_int_le_iff)
  finally have "pow2 0 \<le> of_int (round_half_even (q / pow2 (?e - 52))) * pow2 (?e - 52)"
    using pow2_mono [OF e0] by simp
  then have "1 \<le> of_int (round_half_even (q / pow2 (?e - 52))) * pow2 (?e - 52)"
    by (simp add: pow2_values)
  then show ?thesis
    using pos unfolding binary64_def binary64_pos_def Let_def mx by simp
qed

lemma binary64_negative:
  assumes "q < 0"
  shows "binary64 q = MinusInfinity \<or> (\<exists>v. binary64 q = Finite v \<and> v \<le> 0)"
proof -
  let ?e = "max (exponent_of (- q)) (- 1022)"
  have "of_int 0 \<le> - q / pow2 (?e - 52)"
    using assms pow2_pos [of "?e - 52"] by (simp add: divide_le_0_iff less_imp_le)
  then have "0 \<le> round_half_even (- q / pow2 (?e - 52))"
    by (rule round_half_even_ge)
  then have "0 \<le> of_int (round_half_even (- q / pow2 (?e - 52))) * pow2 (?e - 52)"
    using pow2_pos [of "?e - 52"] by simp
  then show ?thesis
    using assms unfolding binary64_def binary64_pos_def Let_def by simp
qed

lemma binary64_half_to_one:
  assumes "1 / 2 \<le> q" and "q < 1"
  shows "binary64 q = Finite (of_int (round_half_even (q * 2 ^ 53)) / 2 ^ 53)"
proof -
  have pos: "0 < q" using assms by simp
  have e: "exponent_of q = - 1"
    using pos assms by (intro exponent_of_unique) (simp_all add: pow2_def)
  show ?thesis
    using pos by (simp add: binary64_def binary64_pos_def e pow2_def)
qed

text \<open>
  The comparison with the threshold, in terms of the decimal the JSON text gives: a
  number is below the threshold exactly when it is below the midpoint between the
  threshold and the binary64 value before it. Decimals from that midpoint up to 0.7,
  such as 0.69999999999999999, denote the threshold itself.
\<close>

lemma below_threshold_JNumber:
  "below_threshold (JNumber q) \<longleftrightarrow> q < 12610078956637387 / 18014398509481984"
proof -
  have t: "below_threshold (JNumber q) \<longleftrightarrow>
      less_number (binary64 q) (Finite (6305039478318694 / 9007199254740992))"
    by (simp add: below_threshold_def threshold_value)
  consider "q < 0" | "q = 0" | "0 < q" "q < 1 / 2" | "1 / 2 \<le> q" "q < 1" | "1 \<le> q"
    by linarith
  then show ?thesis
  proof cases
    case 1
    then show ?thesis
      using binary64_negative [OF 1] unfolding t by auto
  next
    case 2
    then show ?thesis
      unfolding t by (simp add: binary64_def)
  next
    case 3
    then show ?thesis
      using binary64_small [OF 3] unfolding t by auto
  next
    case 4
    have ev: "even (6305039478318694 :: int)" by simp
    have "less_number (binary64 q) (Finite (6305039478318694 / 9007199254740992)) \<longleftrightarrow>
        round_half_even (q * 2 ^ 53) < 6305039478318694"
      unfolding binary64_half_to_one [OF 4]
      by (simp add: divide_less_eq)
    also have "\<dots> \<longleftrightarrow> q * 2 ^ 53 < of_int 6305039478318694 - 1 / 2"
      by (rule round_half_even_less_even [OF ev])
    also have "\<dots> \<longleftrightarrow> q < 12610078956637387 / 18014398509481984"
      by (simp add: field_simps)
    finally show ?thesis
      unfolding t .
  next
    case 5
    then show ?thesis
      using binary64_large [OF 5] unfolding t by auto
  qed
qed

lemma below_threshold_iff:
  "below_threshold c \<longleftrightarrow>
     c = Null \<or> (\<exists>q. c = JNumber q \<and> q < 12610078956637387 / 18014398509481984)"
proof (cases c)
  case Undefined
  then show ?thesis by (simp add: below_threshold_def)
next
  case Null
  then show ?thesis by (simp add: below_threshold_def threshold_value)
next
  case (JNumber q)
  then show ?thesis using below_threshold_JNumber [of q] by simp
qed

lemma just_below_not_below:
  "just_below < 7 / 10" "\<not> below_threshold (JNumber just_below)"
  "\<not> below_threshold (JNumber (7 / 10))" "below_threshold (JNumber (1 / 2))"
  "\<not> below_threshold (JNumber (9 / 10))"
  by (simp_all add: below_threshold_JNumber just_below_def)

subsection \<open>Normalisation of the styled output\<close>

text \<open>Global replacement of a pair: the leftmost occurrence is rewritten and the rest of
  the string is treated the same way; a string without the pair is left as it is.\<close>

lemma sublist_pair_simps:
  "sublist [x, y] (u # v # ws) \<longleftrightarrow> (x = u \<and> y = v) \<or> sublist [x, y] (v # ws)"
  "\<not> sublist [x, y] [u]"
  "\<not> sublist [x, y] []"
  by (auto simp: sublist_Cons_right)

lemma replace_pair_first:
  "\<not> sublist [a, b] xs \<Longrightarrow> a \<noteq> b \<Longrightarrow>
     replace_pair a b rep (xs @ a # b # ys) = xs @ rep @ replace_pair a b rep ys"
proof (induction xs rule: induct_list012)
  case 1
  then show ?case by simp
next
  case (2 x)
  then show ?case by auto
next
  case (3 x y zs)
  then show ?case by (auto simp: sublist_pair_simps)
qed

lemma replace_pair_none:
  "\<not> sublist [a, b] xs \<Longrightarrow> replace_pair a b rep xs = xs"
  by (induction xs rule: induct_list012) (auto simp: sublist_pair_simps)

text \<open>Replacing by one character that is neither of the pair removes every occurrence
  of the pair and creates none of another pair.\<close>

lemma replace_pair_head:
  "\<exists>r. replace_pair a b [d] (u # us) = u # r \<or> replace_pair a b [d] (u # us) = d # r"
  by (cases us) auto

lemma replace_pair_keeps_absent:
  "\<not> sublist [x, y] s \<Longrightarrow> x \<noteq> d \<Longrightarrow> y \<noteq> d \<Longrightarrow> \<not> sublist [x, y] (replace_pair a b [d] s)"
proof (induction a b "[d]" s rule: replace_pair.induct)
  case (1 a b u v ws)
  show ?case
  proof (cases "u = a \<and> v = b")
    case True
    have "\<not> sublist [x, y] ws"
      using "1.prems"(1) by (cases ws) (auto simp: sublist_pair_simps sublist_Cons_right)
    then have ih: "\<not> sublist [x, y] (replace_pair a b [d] ws)"
      using "1.hyps"(1) True "1.prems" by simp
    show ?thesis
      using True ih "1.prems"(2) by (cases "replace_pair a b [d] ws") (auto simp: sublist_pair_simps)
  next
    case False
    have "\<not> sublist [x, y] (v # ws)"
      using "1.prems"(1) by (auto simp: sublist_pair_simps)
    then have ih: "\<not> sublist [x, y] (replace_pair a b [d] (v # ws))"
      using "1.hyps"(2) False "1.prems" by simp
    obtain r where r: "replace_pair a b [d] (v # ws) = v # r \<or> replace_pair a b [d] (v # ws) = d # r"
      using replace_pair_head by blast
    have nuv: "\<not> (x = u \<and> y = v)"
      using "1.prems"(1) by (auto simp: sublist_pair_simps)
    show ?thesis
      using False ih r nuv "1.prems"(3) by (auto simp: sublist_pair_simps)
  qed
qed simp_all

lemma replace_pair_removes:
  "a \<noteq> d \<Longrightarrow> b \<noteq> d \<Longrightarrow> \<not> sublist [a, b] (replace_pair a b [d] s)"
proof (induction a b "[d]" s rule: replace_pair.induct)
  case (1 a b u v ws)
  show ?case
  proof (cases "u = a \<and> v = b")
    case True
    have ih: "\<not> sublist [a, b] (replace_pair a b [d] ws)"
      using "1.hyps"(1) True "1.prems" by simp
    show ?thesis
      using True ih "1.prems"(1) by (cases "replace_pair a b [d] ws") (auto simp: sublist_pair_simps)
  next
    case False
    have ih: "\<not> sublist [a, b] (replace_pair a b [d] (v # ws))"
      using "1.hyps"(2) False "1.prems" by simp
    obtain r where r: "replace_pair a b [d] (v # ws) = v # r \<or> replace_pair a b [d] (v # ws) = d # r"
      using replace_pair_head by blast
    show ?thesis
      using False ih r "1.prems"(2) by (auto simp: sublist_pair_simps)
  qed
qed (simp_all add: sublist_pair_simps)

lemma replacement_dollar: "replacement ''$$'' = ''$''" "replacement ''$'' = ''$''"
  by simp_all

lemma convert_delimiters_no_marker:
  "\<not> sublist [backslash, CHR ''[''] (convert_delimiters s)"
  "\<not> sublist [backslash, CHR '']''] (convert_delimiters s)"
  "\<not> sublist [backslash, CHR ''(''] (convert_delimiters s)"
  "\<not> sublist [backslash, CHR '')''] (convert_delimiters s)"
proof -
  have b: "backslash \<noteq> CHR ''$''"
    by (simp add: backslash_def)
  let ?s1 = "replace_pair backslash CHR ''['' ''$'' s"
  let ?s2 = "replace_pair backslash CHR '']'' ''$'' ?s1"
  let ?s3 = "replace_pair backslash CHR ''('' ''$'' ?s2"
  let ?s4 = "replace_pair backslash CHR '')'' ''$'' ?s3"
  have c: "convert_delimiters s = ?s4"
    by (simp add: convert_delimiters_def)
  have "\<not> sublist [backslash, CHR ''[''] ?s1"
    using b by (rule replace_pair_removes) simp
  then have "\<not> sublist [backslash, CHR ''[''] ?s2"
    using b by (rule replace_pair_keeps_absent) simp
  then have "\<not> sublist [backslash, CHR ''[''] ?s3"
    using b by (rule replace_pair_keeps_absent) simp
  then show "\<not> sublist [backslash, CHR ''[''] (convert_delimiters s)"
    unfolding c using b by (rule replace_pair_keeps_absent) simp
  have "\<not> sublist [backslash, CHR '']''] ?s2"
    using b by (rule replace_pair_removes) simp
  then have "\<not> sublist [backslash, CHR '']''] ?s3"
    using b by (rule replace_pair_keeps_absent) simp
  then show "\<not> sublist [backslash, CHR '']''] (convert_delimiters s)"
    unfolding c using b by (rule replace_pair_keeps_absent) simp
  have "\<not> sublist [backslash, CHR ''(''] ?s3"
    using b by (rule replace_pair_removes) simp
  then show "\<not> sublist [backslash, CHR ''(''] (convert_delimiters s)"
    unfolding c using b by (rule replace_pair_keeps_absent) simp
  show "\<not> sublist [backslash, CHR '')''] (convert_delimiters s)"
    unfolding c using b by (rule replace_pair_removes) simp
qed

text \<open>The collapse of newlines: a run keeps its length below three and becomes two
  newlines from three on; other characters are kept; no pair that does not start with a
  newline is created, and no run of three is left.\<close>

lemma collapse_from_run: "collapse_from n (replicate k newline @ s) = collapse_from (n + k) s"
  by (induction k arbitrary: n) simp_all

lemma collapse_newlines_run:
  "c \<noteq> newline \<Longrightarrow>
     collapse_newlines (replicate k newline @ c # s) =
       replicate (if 3 \<le> k then 2 else k) newline @ c # collapse_newlines s"
  by (simp add: collapse_newlines_def collapse_from_run flush_def)

lemma collapse_newlines_end:
  "collapse_newlines (replicate k newline) = replicate (if 3 \<le> k then 2 else k) newline"
  using collapse_from_run [of 0 k "[]"] by (simp add: collapse_newlines_def flush_def)

lemma sublist_replicate_other:
  "x \<noteq> c \<Longrightarrow> sublist [x, y] (replicate k c @ t) \<longleftrightarrow> sublist [x, y] t"
proof (induction k)
  case 0
  then show ?case by simp
next
  case (Suc k)
  then show ?case
    by (cases "replicate k c @ t") (auto simp: sublist_pair_simps)
qed

lemma collapse_from_starts:
  "0 < n \<Longrightarrow> \<exists>r. collapse_from n s = newline # r"
proof (induction s arbitrary: n)
  case Nil
  then show ?case by (cases n) (auto simp: flush_def numeral_2_eq_2)
next
  case (Cons c cs)
  then show ?case by (cases n) (auto simp: flush_def numeral_2_eq_2)
qed

lemma collapse_from_0_head:
  "\<exists>r. collapse_from 0 (c # cs) = c # r"
proof (cases "c = newline")
  case True
  then show ?thesis using collapse_from_starts [of 1 cs] by simp
next
  case False
  then show ?thesis by (simp add: flush_def)
qed

lemma collapse_from_keeps_absent:
  "\<not> sublist [x, y] s \<Longrightarrow> x \<noteq> newline \<Longrightarrow> \<not> sublist [x, y] (collapse_from n s)"
proof (induction s arbitrary: n)
  case Nil
  then show ?case
    using sublist_replicate_other [of x newline y _ "[]"] by (simp add: flush_def sublist_pair_simps)
next
  case (Cons c cs)
  have tl: "\<not> sublist [x, y] cs"
    using Cons.prems(1) by (auto simp: sublist_Cons_right)
  show ?case
  proof (cases "c = newline")
    case True
    then show ?thesis using Cons.IH [OF tl Cons.prems(2)] by simp
  next
    case False
    have ih: "\<not> sublist [x, y] (collapse_from 0 cs)"
      using Cons.IH [OF tl Cons.prems(2)] .
    have "\<not> sublist [x, y] (c # collapse_from 0 cs)"
    proof (cases cs)
      case Nil
      then show ?thesis by (simp add: flush_def sublist_pair_simps)
    next
      case (Cons d ds)
      obtain r where r: "collapse_from 0 (d # ds) = d # r"
        using collapse_from_0_head by blast
      have "\<not> (x = c \<and> y = d)"
        using Cons.prems(1) unfolding Cons by (auto simp: sublist_pair_simps)
      then show ?thesis
        using ih unfolding Cons r by (auto simp: sublist_pair_simps)
    qed
    then show ?thesis
      using False Cons.prems(2) by (simp add: flush_def sublist_replicate_other)
  qed
qed

lemma sublist_triple_simps:
  "sublist [x, x, x] (u # v # w # ws) \<longleftrightarrow> (x = u \<and> x = v \<and> x = w) \<or> sublist [x, x, x] (v # w # ws)"
  "\<not> sublist [x, x, x] [u, v]"
  "\<not> sublist [x, x, x] [u]"
  "\<not> sublist [x, x, x] []"
  by (auto simp: sublist_Cons_right)

lemma triple_after_other:
  "c \<noteq> x \<Longrightarrow> sublist [x, x, x] (c # t) \<longleftrightarrow> sublist [x, x, x] t"
  by (auto simp: sublist_Cons_right)

lemma triple_short_run:
  "c \<noteq> x \<Longrightarrow> k \<le> 2 \<Longrightarrow> sublist [x, x, x] (replicate k x @ c # t) \<longleftrightarrow> sublist [x, x, x] t"
proof -
  assume c: "c \<noteq> x" and "k \<le> 2"
  then consider "k = 0" | "k = 1" | "k = 2" by linarith
  then show ?thesis
  proof cases
    case 1
    then show ?thesis using c by (simp add: triple_after_other)
  next
    case 2
    then show ?thesis using c
      by (cases t; cases "tl t") (auto simp: sublist_Cons_right)
  next
    case 3
    then show ?thesis using c
      by (cases t; cases "tl t") (auto simp: sublist_Cons_right numeral_2_eq_2)
  qed
qed

lemma collapse_from_no_triple:
  "\<not> sublist [newline, newline, newline] (collapse_from n s)"
proof (induction s arbitrary: n)
  case Nil
  have "\<not> sublist [newline, newline, newline] (replicate k newline)" if "k \<le> 2" for k
  proof -
    from that consider "k = 0" | "k = 1" | "k = 2" by linarith
    then show ?thesis
      by cases (auto simp: sublist_Cons_right numeral_2_eq_2)
  qed
  then show ?case by (simp add: flush_def)
next
  case (Cons c cs)
  show ?case
  proof (cases "c = newline")
    case True
    then show ?thesis using Cons.IH by simp
  next
    case False
    have "(if 3 \<le> n then 2 else n) \<le> 2" by simp
    then show ?thesis
      using False Cons.IH [of 0] by (simp add: flush_def triple_short_run del: replicate.simps)
  qed
qed

text \<open>Trimming keeps a contiguous part, which neither starts nor ends with white space,
  and is empty exactly for a string of white space.\<close>

lemma sublist_trim: "sublist (trim s) s"
proof -
  have "suffix (dropWhile is_space (rev (dropWhile is_space s))) (rev (dropWhile is_space s))"
    by (rule suffix_dropWhile)
  then have "prefix (trim s) (dropWhile is_space s)"
    unfolding trim_def by (simp add: suffix_to_prefix)
  moreover have "suffix (dropWhile is_space s) s"
    by (rule suffix_dropWhile)
  ultimately show ?thesis
    by (meson prefix_imp_sublist suffix_imp_sublist sublist_order.order_trans)
qed

lemma trim_ends:
  assumes "trim s \<noteq> []"
  shows "\<not> is_space (hd (trim s)) \<and> \<not> is_space (last (trim s))"
proof -
  let ?t = "dropWhile is_space s"
  let ?u = "dropWhile is_space (rev ?t)"
  have u: "?u \<noteq> []" using assms by (simp add: trim_def)
  have t: "?t \<noteq> []"
  proof
    assume "?t = []"
    then have "?u = []" by (simp only: rev.simps dropWhile.simps)
    with u show False by (simp only:)
  qed
  have "last (trim s) = hd ?u"
    using u by (simp add: trim_def last_rev)
  moreover have "\<not> is_space (hd ?u)"
    using u by (rule hd_dropWhile)
  moreover have "hd (trim s) = last ?u"
    using u by (simp add: trim_def hd_rev)
  moreover have "last ?u = last (rev ?t)"
    using u by (metis last_appendR takeWhile_dropWhile_id)
  moreover have "last (rev ?t) = hd ?t"
    using t by (simp add: last_rev)
  moreover have "\<not> is_space (hd ?t)"
    using t by (rule hd_dropWhile)
  ultimately show ?thesis by simp
qed

lemma trim_empty_iff: "trim s = [] \<longleftrightarrow> (\<forall>c \<in> set s. is_space c)"
proof -
  have "(\<forall>c \<in> set (dropWhile is_space s). is_space c) \<longleftrightarrow> dropWhile is_space s = []"
    using hd_dropWhile [of is_space s]
    by (cases "dropWhile is_space s") (auto dest: set_dropWhileD)
  moreover have "trim s = [] \<longleftrightarrow> (\<forall>c \<in> set (dropWhile is_space s). is_space c)"
    by (simp add: trim_def dropWhile_eq_Nil_conv)
  moreover have "dropWhile is_space s = [] \<longleftrightarrow> (\<forall>c \<in> set s. is_space c)"
    by (rule dropWhile_eq_Nil_conv)
  ultimately show ?thesis
    by blast
qed

text \<open>Together: the normalised text is empty exactly when the styled output is white
  space only, and otherwise it is \<open>normalised\<close>.\<close>

lemma is_space_newline: "is_space newline"
  by (simp add: is_space_def newline_def)

lemma collapse_from_all_space:
  "(\<forall>c \<in> set (collapse_from n t). is_space c) \<longleftrightarrow> (\<forall>c \<in> set t. is_space c)"
  by (induction t arbitrary: n) (auto simp: flush_def is_space_newline)

lemma replace_pair_all_space:
  "\<not> is_space a \<Longrightarrow> \<not> is_space d \<Longrightarrow>
     (\<forall>c \<in> set (replace_pair a b [d] t). is_space c) \<longleftrightarrow> (\<forall>c \<in> set t. is_space c)"
  by (induction a b "[d]" t rule: replace_pair.induct) auto

lemma convert_delimiters_all_space:
  "(\<forall>c \<in> set (convert_delimiters t). is_space c) \<longleftrightarrow> (\<forall>c \<in> set t. is_space c)"
proof -
  have "\<not> is_space backslash" "\<not> is_space CHR ''$''"
    by (simp_all add: is_space_def backslash_def)
  then show ?thesis
    by (simp add: convert_delimiters_def replace_pair_all_space)
qed

lemma normalise_empty_iff:
  "trim (collapse_newlines (convert_delimiters t)) = [] \<longleftrightarrow> (\<forall>c \<in> set t. is_space c)"
  by (simp add: trim_empty_iff collapse_newlines_def collapse_from_all_space
      convert_delimiters_all_space)

lemma normalise_normalised:
  assumes "trim (collapse_newlines (convert_delimiters s)) \<noteq> []"
  shows "normalised (trim (collapse_newlines (convert_delimiters s)))"
proof -
  let ?c = "convert_delimiters s"
  let ?n = "collapse_newlines ?c"
  have bn: "backslash \<noteq> newline"
    by (simp add: backslash_def newline_def)
  have k: "\<not> sublist [backslash, y] ?n" if "\<not> sublist [backslash, y] ?c" for y
    unfolding collapse_newlines_def using that bn by (rule collapse_from_keeps_absent)
  have t: "\<not> sublist xs (trim ?n)" if "\<not> sublist xs ?n" for xs
    using that sublist_trim [of ?n] by (meson sublist_order.order_trans)
  have "\<not> sublist [newline, newline, newline] ?n"
    unfolding collapse_newlines_def by (rule collapse_from_no_triple)
  then show ?thesis
    unfolding normalised_def
    using assms trim_ends [OF assms] t k convert_delimiters_no_marker [of s] by blast
qed

lemma normalise_examples:
  "trim (collapse_newlines (convert_delimiters display_x)) = ''$x$''"
  "trim (collapse_newlines (convert_delimiters inline_x)) = ''$x$''"
  "trim (collapse_newlines (convert_delimiters ''x'')) = ''x''"
  "trim (collapse_newlines (convert_delimiters '' '')) = ''''"
  "collapse_newlines (convert_delimiters '' '') = '' ''"
  "collapse_newlines [CHR ''a'', newline, newline, newline, newline, CHR ''b'', newline, newline, CHR ''c'']
     = [CHR ''a'', newline, newline, CHR ''b'', newline, newline, CHR ''c'']"
  by (simp_all add: convert_delimiters_def display_x_def inline_x_def backslash_def
      collapse_newlines_def trim_def is_space_def newline_def flush_def numeral_2_eq_2)

subsection \<open>The image path\<close>

text \<open>A value returned by \<open>retryWithDelay\<close> is a value some call of the operation
  returned, so every markup returned on the image path is \<open>normalised\<close>.\<close>

lemma retry_loop_Inr:
  "retry_loop operation retries attempt s = ((Inr v, s'), evs) \<Longrightarrow>
     \<exists>s0. operation s0 = (Inr v, s')"
proof (induction operation retries attempt s arbitrary: evs rule: retry_loop.induct)
  case (1 operation retries attempt s)
  show ?case
  proof (cases "attempt \<le> retries")
    case False
    then show ?thesis
      using "1.prems" by (subst (asm) retry_loop.simps) simp
  next
    case True
    obtain r s1 where op: "operation s = (r, s1)"
      by (cases "operation s")
    show ?thesis
    proof (cases r)
      case (Inr v')
      then show ?thesis
        using "1.prems" True op by (subst (asm) retry_loop.simps) auto
    next
      case (Inl e)
      show ?thesis
      proof (cases "retryable e \<and> attempt < retries")
        case False
        then show ?thesis
          using "1.prems" True op Inl by (subst (asm) retry_loop.simps) auto
      next
        case t: True
        obtain out evs' where rec: "retry_loop operation retries (attempt + 1) s1 = (out, evs')"
          by (cases "retry_loop operation retries (attempt + 1) s1")
        have "out = (Inr v, s')"
          using "1.prems" True op Inl t rec by (subst (asm) retry_loop.simps) auto
        then have "retry_loop operation retries (attempt + 1) s1 = ((Inr v, s'), evs')"
          using rec by simp
        then show ?thesis
          by (rule "1.IH" [OF True op [symmetric] Inl t])
      qed
    qed
  qed
qed

lemma retryWithDelay_Inr:
  "fst (retryWithDelay operation retries s) = (Inr v, s') \<Longrightarrow> \<exists>s0. operation s0 = (Inr v, s')"
  unfolding retryWithDelay_def
  using retry_loop_Inr [of operation retries 1 s v s' "snd (retry_loop operation retries 1 s)"]
  by (cases "retry_loop operation retries 1 s") auto

lemma processImageWithMathpix_Inr:
  "processImageWithMathpix imageUrl w = (Inr res, w') \<Longrightarrow>
     \<exists>m. mmd res = Some m \<and> normalised m"
  unfolding processImageWithMathpix_def
  by (auto simp: Let_def empty_object_def normalise_normalised
      split: prod.splits option.splits if_splits)

lemma image_path_returns_normalised:
  assumes "is_image filename"
    and "processWithMathpix storageUrl userId filename w = (Inr res, w')"
  shows "\<exists>m. mmd res = Some m \<and> normalised m"
proof -
  have "fst (retryWithDelay (processImageWithMathpix storageUrl) MAX_RETRIES w) = (Inr res, w')"
    using assms
    by (auto simp: processWithMathpix_def split: if_splits prod.splits sum.splits thrown.splits)
  then obtain s0 where "processImageWithMathpix storageUrl s0 = (Inr res, w')"
    using retryWithDelay_Inr [of "processImageWithMathpix storageUrl" MAX_RETRIES w res w'] by blast
  then show ?thesis
    by (rule processImageWithMathpix_Inr)
qed

lemma is_image_answer_png: "is_image ''answer.png''"
  by (simp add: is_image_def lower_def suffix_def)

text \<open>The outcome when the first recognition response is a success response whose JSON
  has no error field.\<close>

lemma image_path_first:
  assumes "credentials w" and "is_image filename" and "responses w = Some resp # rest"
    and "ok resp" and "body_json resp = Some result" and "\<not> truthy (error result)"
  shows "below_threshold (confidence result) \<Longrightarrow>
           processWithMathpix storageUrl userId filename w =
             (Inl (MathpixError LOW_CONFIDENCE), w\<lparr>responses := rest\<rparr>)"
    and "\<not> below_threshold (confidence result) \<Longrightarrow> \<not> truthy (text' result) \<Longrightarrow>
         \<not> truthy (latex_styled result) \<Longrightarrow>
           processWithMathpix storageUrl userId filename w =
             (Inl (MathpixError NO_MATH_DETECTED), w\<lparr>responses := rest\<rparr>)"
    and "\<not> below_threshold (confidence result) \<Longrightarrow> latex_styled result = Some styled \<Longrightarrow>
         truthy (text' result) \<or> styled \<noteq> [] \<Longrightarrow>
           processWithMathpix storageUrl userId filename w =
             (if trim (collapse_newlines (convert_delimiters styled)) = []
              then Inl (MathpixError EMPTY_RESPONSE)
              else Inr (empty_object\<lparr>mmd := Some (trim (collapse_newlines (convert_delimiters styled))),
                                     text' := text' result\<rparr>),
              w\<lparr>responses := rest\<rparr>)"
proof -
  let ?w1 = "w\<lparr>responses := rest\<rparr>"
  have run: "processWithMathpix storageUrl userId filename w = (r, ?w1)"
    if op: "processImageWithMathpix storageUrl w = (r, ?w1)"
      and typed: "case r of Inl e \<Rightarrow> \<not> retryable e \<and> e \<noteq> OtherError | Inr v \<Rightarrow> True" for r
  proof -
    have "retryWithDelay (processImageWithMathpix storageUrl) MAX_RETRIES w = ((r, ?w1), [Invoked])"
      using op typed by (intro retryWithDelay_first) (auto simp: MAX_RETRIES_def split: sum.splits)
    then show ?thesis
      using assms(1,2) typed by (auto simp: processWithMathpix_def split: sum.splits thrown.splits)
  qed
  have f: "fetch w = (Some resp, ?w1)"
    using assms(3) by (simp add: fetch_def)
  have low: "processWithMathpix storageUrl userId filename w =
      (Inl (MathpixError LOW_CONFIDENCE), ?w1)"
    if "below_threshold (confidence result)"
    using that assms(4-6) f
    by (intro run) (simp_all add: processImageWithMathpix_def retryable_def)
  have none: "processWithMathpix storageUrl userId filename w =
      (Inl (MathpixError NO_MATH_DETECTED), ?w1)"
    if "\<not> below_threshold (confidence result)" "\<not> truthy (text' result)"
       "\<not> truthy (latex_styled result)"
    using that assms(4-6) f
    by (intro run) (simp_all add: processImageWithMathpix_def retryable_def)
  have norm: "processWithMathpix storageUrl userId filename w =
         (if trim (collapse_newlines (convert_delimiters styled)) = []
          then Inl (MathpixError EMPTY_RESPONSE)
          else Inr (empty_object\<lparr>mmd := Some (trim (collapse_newlines (convert_delimiters styled))),
                                 text' := text' result\<rparr>), ?w1)"
    if "\<not> below_threshold (confidence result)" "latex_styled result = Some styled"
       "truthy (text' result) \<or> styled \<noteq> []"
    using that assms(4-6) f
    by (intro run) (auto simp: processImageWithMathpix_def retryable_def truthy_def Let_def)
  show "below_threshold (confidence result) \<Longrightarrow>
           processWithMathpix storageUrl userId filename w =
             (Inl (MathpixError LOW_CONFIDENCE), w\<lparr>responses := rest\<rparr>)"
    by (rule low)
  show "\<not> below_threshold (confidence result) \<Longrightarrow> \<not> truthy (text' result) \<Longrightarrow>
         \<not> truthy (latex_styled result) \<Longrightarrow>
           processWithMathpix storageUrl userId filename w =
             (Inl (MathpixError NO_MATH_DETECTED), w\<lparr>responses := rest\<rparr>)"
    by (rule none)
  show "\<not> below_threshold (confidence result) \<Longrightarrow> latex_styled result = Some styled \<Longrightarrow>
         truthy (text' result) \<or> styled \<noteq> [] \<Longrightarrow>
           processWithMathpix storageUrl userId filename w =
             (if trim (collapse_newlines (convert_delimiters styled)) = []
              then Inl (MathpixError EMPTY_RESPONSE)
              else Inr (empty_object\<lparr>mmd := Some (trim (collapse_newlines (convert_delimiters styled))),
                                     text' := text' result\<rparr>),
              w\<lparr>responses := rest\<rparr>)"
    by (rule norm)
qed

text \<open>
  C5, as stated: the orchestrator fails with \<open>low_confidence\<close> whenever the reported
  confidence is below 0.7, and with \<open>empty_response\<close> exactly when the conversion of the
  delimiters and the collapse of the newlines yield empty content. Neither holds. A
  styled output of one space has no delimiter and no newline, so both steps leave it
  as it is, not empty, and the orchestrator fails with \<open>empty_response\<close>: the source
  also trims. And a reported confidence of 0.69999999999999999 is below 0.7, yet the
  orchestrator returns the text: the comparison is between the binary64 values, and
  both decimals denote the same one.
\<close>

theorem image_path_trim_and_rounding:
  "processWithMathpix ''url'' ''u1'' ''answer.png''
      (world_of [Some (recognition (Some ''x'') (Some '' '') (JNumber (9 / 10)))]) =
     (Inl (MathpixError EMPTY_RESPONSE), world_of []) \<and>
   collapse_newlines (convert_delimiters '' '') = '' '' \<and> '' '' \<noteq> '''' \<and>
   just_below < 7 / 10 \<and>
   processWithMathpix ''url'' ''u1'' ''answer.png''
      (world_of [Some (recognition (Some ''x'') (Some ''x'') (JNumber just_below))]) =
     (Inr (empty_object\<lparr>mmd := Some ''x'', text' := Some ''x''\<rparr>), world_of [])"
proof -
  have w: "credentials (world_of rs)" "responses (world_of [Some r]) = Some r # []"
    "(world_of [Some r])\<lparr>responses := []\<rparr> = world_of []" for rs r
    by (simp_all add: world_of_def)
  have r: "ok (recognition t s c)" "body_json (recognition t s c) = Some (recognised t s c)"
    "\<not> truthy (error (recognised t s c))" "confidence (recognised t s c) = c"
    "text' (recognised t s c) = t" "latex_styled (recognised t s c) = s" for t s c
    by (simp_all add: recognition_def recognised_def ok_def empty_object_def truthy_def)
  have t: "truthy (Some ''x'')"
    by (simp add: truthy_def)
  have blank: "processWithMathpix ''url'' ''u1'' ''answer.png''
      (world_of [Some (recognition (Some ''x'') (Some '' '') (JNumber (9 / 10)))]) =
     (Inl (MathpixError EMPTY_RESPONSE), world_of [])"
    using image_path_first(3)
            [where w = "world_of [Some (recognition (Some ''x'') (Some '' '') (JNumber (9 / 10)))]"
               and filename = "''answer.png''"
               and resp = "recognition (Some ''x'') (Some '' '') (JNumber (9 / 10))" and rest = "[]"
               and result = "recognised (Some ''x'') (Some '' '') (JNumber (9 / 10))"
               and storageUrl = "''url''" and userId = "''u1''" and styled = "'' ''"]
          w r t just_below_not_below(5) is_image_answer_png normalise_examples(4)
    by simp
  have near: "processWithMathpix ''url'' ''u1'' ''answer.png''
      (world_of [Some (recognition (Some ''x'') (Some ''x'') (JNumber just_below))]) =
     (Inr (empty_object\<lparr>mmd := Some ''x'', text' := Some ''x''\<rparr>), world_of [])"
    using image_path_first(3)
            [where w = "world_of [Some (recognition (Some ''x'') (Some ''x'') (JNumber just_below))]"
               and filename = "''answer.png''"
               and resp = "recognition (Some ''x'') (Some ''x'') (JNumber just_below)" and rest = "[]"
               and result = "recognised (Some ''x'') (Some ''x'') (JNumber just_below)"
               and storageUrl = "''url''" and userId = "''u1''" and styled = "''x''"]
          w r t just_below_not_below(2) is_image_answer_png normalise_examples(3)
    by simp
  from blank near just_below_not_below(1) normalise_examples(5) show ?thesis
    by simp
qed

text \<open>
  C5, amended: on the image path, with credentials configured and the recognition
  request answered by a success response whose JSON has no error field. The confidence
  counts as below the threshold exactly when it is \<open>null\<close> or a number below
  \<open>12610078956637387 / 2 ^ 54\<close> (the numbers whose binary64 value is below that of 0.7);
  a missing confidence does not. If it is below, the orchestrator fails with
  \<open>low_confidence\<close> and uploads nothing. Otherwise, if neither plain text nor styled
  output is present, it fails with \<open>no_math_detected\<close>. Otherwise, if the styled output
  is present, it returns that output with the delimiters converted, runs of three or
  more newlines collapsed to two and leading and trailing white space trimmed, failing
  with \<open>empty_response\<close> exactly when that text is empty, which is when the styled
  output is white space only. Every markup the image path returns is not empty, neither
  starts nor ends with white space, has no three newlines in a row and none of the
  four bracket markers.
\<close>

theorem image_path_outcomes:
  assumes "credentials w" and "is_image filename" and "responses w = Some resp # rest"
    and "ok resp" and "body_json resp = Some result" and "\<not> truthy (error result)"
  shows
   "(below_threshold (confidence result) \<longleftrightarrow>
       confidence result = Null \<or>
       (\<exists>q. confidence result = JNumber q \<and> q < 12610078956637387 / 18014398509481984)) \<and>
    (below_threshold (confidence result) \<longrightarrow>
       processWithMathpix storageUrl userId filename w =
         (Inl (MathpixError LOW_CONFIDENCE), w\<lparr>responses := rest\<rparr>) \<and>
       uploaded (snd (processWithMathpix storageUrl userId filename w)) = uploaded w) \<and>
    (\<not> below_threshold (confidence result) \<and> \<not> truthy (text' result) \<and>
       \<not> truthy (latex_styled result) \<longrightarrow>
       processWithMathpix storageUrl userId filename w =
         (Inl (MathpixError NO_MATH_DETECTED), w\<lparr>responses := rest\<rparr>)) \<and>
    (\<not> below_threshold (confidence result) \<and> latex_styled result = Some styled \<and>
       (truthy (text' result) \<or> styled \<noteq> []) \<longrightarrow>
       processWithMathpix storageUrl userId filename w =
         (if trim (collapse_newlines (convert_delimiters styled)) = []
          then Inl (MathpixError EMPTY_RESPONSE)
          else Inr (empty_object\<lparr>mmd := Some (trim (collapse_newlines (convert_delimiters styled))),
                                 text' := text' result\<rparr>),
          w\<lparr>responses := rest\<rparr>) \<and>
       (trim (collapse_newlines (convert_delimiters styled)) = [] \<longleftrightarrow>
          (\<forall>c \<in> set styled. is_space c))) \<and>
    (processWithMathpix storageUrl userId filename w = (Inr res, w') \<longrightarrow>
       (\<exists>m. mmd res = Some m \<and> normalised m))"
proof -
  note first = image_path_first [OF assms]
  have blank: "trim (collapse_newlines (convert_delimiters styled)) = [] \<longleftrightarrow>
      (\<forall>c \<in> set styled. is_space c)"
    by (rule normalise_empty_iff)
  have out: "\<exists>m. mmd res = Some m \<and> normalised m"
    if "processWithMathpix storageUrl userId filename w = (Inr res, w')"
    using assms(2) that by (rule image_path_returns_normalised)
  show ?thesis
    using first(1) first(2) first(3) [of styled] blank out
      below_threshold_iff [of "confidence result"]
    by simp
qed

theorem image_path_outcomes_witness:
  "processWithMathpix ''url'' ''u1'' ''answer.png''
      (world_of [Some (recognition (Some ''x'') (Some ''x'') (JNumber (1 / 2)))]) =
     (Inl (MathpixError LOW_CONFIDENCE), world_of []) \<and>
   processWithMathpix ''url'' ''u1'' ''answer.png''
      (world_of [Some (recognition (Some ''x'') (Some ''x'') Null)]) =
     (Inl (MathpixError LOW_CONFIDENCE), world_of []) \<and>
   processWithMathpix ''url'' ''u1'' ''answer.png''
      (world_of [Some (recognition None None Undefined)]) =
     (Inl (MathpixError NO_MATH_DETECTED), world_of []) \<and>
   processWithMathpix ''url'' ''u1'' ''answer.png''
      (world_of [Some (recognition (Some ''x'') (Some inline_x) (JNumber (9 / 10)))]) =
     (Inr (empty_object\<lparr>mmd := Some ''$x$'', text' := Some ''x''\<rparr>), world_of [])"
proof -
  have w: "credentials (world_of rs)" "responses (world_of [Some r]) = Some r # []"
    "(world_of [Some r])\<lparr>responses := []\<rparr> = world_of []" for rs r
    by (simp_all add: world_of_def)
  have r: "ok (recognition t s c)" "body_json (recognition t s c) = Some (recognised t s c)"
    "\<not> truthy (error (recognised t s c))" "confidence (recognised t s c) = c"
    "text' (recognised t s c) = t" "latex_styled (recognised t s c) = s" for t s c
    by (simp_all add: recognition_def recognised_def ok_def empty_object_def truthy_def)
  have c: "below_threshold (JNumber (1 / 2))" "below_threshold Null"
    "\<not> below_threshold Undefined" "\<not> below_threshold (JNumber (9 / 10))"
    by (simp_all add: below_threshold_JNumber) (simp_all add: below_threshold_iff)
  have t: "\<not> truthy None" "truthy (Some ''x'')"
    by (simp_all add: truthy_def)
  have low: "processWithMathpix ''url'' ''u1'' ''answer.png''
      (world_of [Some (recognition (Some ''x'') (Some ''x'') (JNumber (1 / 2)))]) =
     (Inl (MathpixError LOW_CONFIDENCE), world_of [])"
    using image_path_outcomes
            [where w = "world_of [Some (recognition (Some ''x'') (Some ''x'') (JNumber (1 / 2)))]"
               and filename = "''answer.png''"
               and resp = "recognition (Some ''x'') (Some ''x'') (JNumber (1 / 2))" and rest = "[]"
               and result = "recognised (Some ''x'') (Some ''x'') (JNumber (1 / 2))"
               and storageUrl = "''url''" and userId = "''u1''" and styled = "''x''"]
          w r c is_image_answer_png
    by simp
  have null: "processWithMathpix ''url'' ''u1'' ''answer.png''
      (world_of [Some (recognition (Some ''x'') (Some ''x'') Null)]) =
     (Inl (MathpixError LOW_CONFIDENCE), world_of [])"
    using image_path_outcomes
            [where w = "world_of [Some (recognition (Some ''x'') (Some ''x'') Null)]"
               and filename = "''answer.png''"
               and resp = "recognition (Some ''x'') (Some ''x'') Null" and rest = "[]"
               and result = "recognised (Some ''x'') (Some ''x'') Null"
               and storageUrl = "''url''" and userId = "''u1''" and styled = "''x''"]
          w r c is_image_answer_png
    by simp
  have none: "processWithMathpix ''url'' ''u1'' ''answer.png''
      (world_of [Some (recognition None None Undefined)]) =
     (Inl (MathpixError NO_MATH_DETECTED), world_of [])"
    using image_path_outcomes
            [where w = "world_of [Some (recognition None None Undefined)]"
               and filename = "''answer.png''"
               and resp = "recognition None None Undefined" and rest = "[]"
               and result = "recognised None None Undefined"
               and storageUrl = "''url''" and userId = "''u1''" and styled = "''x''"]
          w r c t is_image_answer_png
    by simp
  have norm: "processWithMathpix ''url'' ''u1'' ''answer.png''
      (world_of [Some (recognition (Some ''x'') (Some inline_x) (JNumber (9 / 10)))]) =
     (Inr (empty_object\<lparr>mmd := Some ''$x$'', text' := Some ''x''\<rparr>), world_of [])"
    using image_path_outcomes
            [where w = "world_of [Some (recognition (Some ''x'') (Some inline_x) (JNumber (9 / 10)))]"
               and filename = "''answer.png''"
               and resp = "recognition (Some ''x'') (Some inline_x) (JNumber (9 / 10))" and rest = "[]"
               and result = "recognised (Some ''x'') (Some inline_x) (JNumber (9 / 10))"
               and storageUrl = "''url''" and userId = "''u1''" and styled = inline_x]
          w r c t is_image_answer_png normalise_examples(2)
    by simp
  from low null none norm show ?thesis
    by blast
qed

end
